theory Spec2Isabelle
  imports Complex_Main "HOL-Library.AList"
begin

section \<open>Python string primitives used by the retrieval engine\<close>

text \<open>
  Python strings are sequences of code points; the model uses \<^typ>\<open>string\<close> and reads a
  \<^typ>\<open>char\<close> as a code point below 256. \<open>str.isspace\<close> holds on that range for
  the code points 9 to 13, 28 to 32, 133 and 160.
\<close>

definition py_isspace :: "char \<Rightarrow> bool" where
  "py_isspace c = (of_char c \<in> {9, 10, 11, 12, 13, 28, 29, 30, 31, 32, 133, 160 :: nat})"

definition nl :: char where
  "nl = CHR 0x0A"

definition py_strip :: "string \<Rightarrow> string" where
  \<comment> \<open>\<open>s.strip()\<close>\<close>
  "py_strip s = rev (dropWhile py_isspace (rev (dropWhile py_isspace s)))"

fun words_acc :: "string \<Rightarrow> string \<Rightarrow> string list" where
  "words_acc w [] = (if w = [] then [] else [w])"
| "words_acc w (c # cs) =
     (if py_isspace c then (if w = [] then words_acc [] cs else w # words_acc [] cs)
      else words_acc (w @ [c]) cs)"

definition py_split :: "string \<Rightarrow> string list" where
  \<comment> \<open>\<open>s.split()\<close>: the maximal runs of non-whitespace characters\<close>
  "py_split s = words_acc [] s"

fun split_nl_acc :: "string \<Rightarrow> string \<Rightarrow> string list" where
  "split_nl_acc acc [] = [acc]"
| "split_nl_acc acc (c # cs) =
     (if c = nl then acc # split_nl_acc [] cs else split_nl_acc (acc @ [c]) cs)"

definition split_nl :: "string \<Rightarrow> string list" where
  \<comment> \<open>\<open>s.split('\n')\<close>\<close>
  "split_nl s = split_nl_acc [] s"

fun split_nlnl_acc :: "string \<Rightarrow> string \<Rightarrow> string list" where
  "split_nlnl_acc acc [] = [acc]"
| "split_nlnl_acc acc [c] = [acc @ [c]]"
| "split_nlnl_acc acc (c # d # cs) =
     (if c = nl \<and> d = nl then acc # split_nlnl_acc [] cs
      else split_nlnl_acc (acc @ [c]) (d # cs))"

definition split_nlnl :: "string \<Rightarrow> string list" where
  \<comment> \<open>\<open>s.split('\n\n')\<close>: separators are found from the left and do not overlap\<close>
  "split_nlnl s = split_nlnl_acc [] s"

fun py_join :: "string \<Rightarrow> string list \<Rightarrow> string" where
  \<comment> \<open>\<open>sep.join(xs)\<close>\<close>
  "py_join sep [] = []"
| "py_join sep [x] = x"
| "py_join sep (x # y # ys) = x @ sep @ py_join sep (y # ys)"

definition py_slice_from :: "int \<Rightarrow> 'a list \<Rightarrow> 'a list" where
  \<comment> \<open>\<open>xs[k:]\<close>: a negative \<open>k\<close> counts from the end, and is clamped at the start\<close>
  "py_slice_from k xs =
     (if k < 0 then drop (nat (int (length xs) + k)) xs else drop (nat k) xs)"

definition py_slice_to :: "int \<Rightarrow> 'a list \<Rightarrow> 'a list" where
  \<comment> \<open>\<open>xs[:k]\<close>\<close>
  "py_slice_to k xs =
     (if k < 0 then take (nat (int (length xs) + k)) xs else take (nat k) xs)"

definition py_slice :: "int \<Rightarrow> int \<Rightarrow> 'a list \<Rightarrow> 'a list" where
  \<comment> \<open>\<open>xs[i:j]\<close>\<close>
  "py_slice i j xs =
     (let n = int (length xs);
          a = (if i < 0 then max 0 (n + i) else min i n);
          b = (if j < 0 then max 0 (n + j) else min j n)
      in take (nat (b - a)) (drop (nat a) xs))"

definition digit_char :: "nat \<Rightarrow> char" where
  \<comment> \<open>the decimal digit \<open>d\<close>, for \<open>d\<close> below 10\<close>
  "digit_char d = ''0123456789'' ! d"

fun str_nat :: "nat \<Rightarrow> string" where
  \<comment> \<open>\<open>str(n)\<close> for a non-negative integer\<close>
  "str_nat n = (if n < 10 then [digit_char n] else str_nat (n div 10) @ [digit_char (n mod 10)])"

declare str_nat.simps [simp del]

section \<open>The paragraph-aware chunker: \<open>ChromaDBRAGTool._chunk_text\<close>\<close>

record chunk =
  c_chunk_id :: nat
  c_text :: string
  c_length :: nat

definition overlap_words :: "int \<Rightarrow> string list \<Rightarrow> string list" where
  \<comment> \<open>\<open>words[-overlap//5:] if len(words) > overlap//5 else []\<close>; the unary minus binds
      tighter than \<open>//\<close>, and \<open>//\<close> rounds down\<close>
  "overlap_words overlap words =
     (if int (length words) > overlap div 5 then py_slice_from ((- overlap) div 5) words else [])"

definition overlap_text :: "int \<Rightarrow> string \<Rightarrow> string" where
  "overlap_text overlap current_chunk = py_join '' '' (overlap_words overlap (py_split current_chunk))"

definition emit_chunk :: "nat \<Rightarrow> string \<Rightarrow> chunk" where
  "emit_chunk chunk_index current_chunk =
     \<lparr>c_chunk_id = chunk_index, c_text = py_strip current_chunk, c_length = length current_chunk\<rparr>"

fun chunk_step :: "int \<Rightarrow> int \<Rightarrow> chunk list \<times> string \<times> nat \<Rightarrow> string \<Rightarrow> chunk list \<times> string \<times> nat" where
  "chunk_step chunk_size overlap (chunks, current_chunk, chunk_index) para =
     (if int (length current_chunk) + int (length para) \<le> chunk_size
      then (chunks, current_chunk @ para @ [nl, nl], chunk_index)
      else if current_chunk \<noteq> []
      then (chunks @ [emit_chunk chunk_index current_chunk],
            overlap_text overlap current_chunk @ [nl] @ para @ [nl, nl],
            chunk_index + 1)
      else (chunks, para @ [nl, nl], chunk_index))"

definition rag_chunk_text :: "string \<Rightarrow> int \<Rightarrow> int \<Rightarrow> chunk list" where
  \<comment> \<open>\<open>_chunk_text(text, chunk_size, overlap)\<close>; the defaults are 500 and 100\<close>
  "rag_chunk_text text chunk_size overlap =
     (case foldl (chunk_step chunk_size overlap) ([], [], 0) (split_nlnl text) of
        (chunks, current_chunk, chunk_index) \<Rightarrow>
          if current_chunk \<noteq> [] then chunks @ [emit_chunk chunk_index current_chunk] else chunks)"

subsection \<open>Reading the chunks back\<close>







section \<open>The fixed-window chunker: \<open>DocumentProcessor.chunk_text\<close>\<close>

partial_function (option) chunk_text_loop ::
  "string \<Rightarrow> int \<Rightarrow> int \<Rightarrow> int \<Rightarrow> string list \<Rightarrow> string list option" where
  "chunk_text_loop text chunk_size overlap start chunks =
     (if start < int (length text)
      then (if min (start + chunk_size) (int (length text)) \<ge> int (length text)
            then Some (if py_strip (py_slice start (min (start + chunk_size) (int (length text))) text) \<noteq> []
                       then chunks @ [py_strip (py_slice start (min (start + chunk_size) (int (length text))) text)]
                       else chunks)
            else chunk_text_loop text chunk_size overlap
                   (min (start + chunk_size) (int (length text)) - overlap)
                   (if py_strip (py_slice start (min (start + chunk_size) (int (length text))) text) \<noteq> []
                    then chunks @ [py_strip (py_slice start (min (start + chunk_size) (int (length text))) text)]
                    else chunks))
      else Some chunks)"

definition chunk_text :: "string \<Rightarrow> int \<Rightarrow> int \<Rightarrow> string list option" where
  \<comment> \<open>\<open>chunk_text(text, chunk_size, overlap)\<close>; \<open>None\<close> is a loop that never ends\<close>
  "chunk_text text chunk_size overlap =
     (if text = [] \<or> py_strip text = [] then Some []
      else chunk_text_loop text chunk_size overlap 0 [])"

section \<open>The retrieval engine: \<open>ChromaDBRAGTool\<close>\<close>

subsection \<open>Data\<close>

text \<open>
  Metadata is an open dictionary from keys to values; the values the engine itself stores
  are strings (\<open>doc_id\<close>, \<open>title\<close>) and integers (\<open>chunk_index\<close>, \<open>length\<close>).
\<close>

datatype mval = MStr string | MInt int

type_synonym metadata = "string \<rightharpoonup> mval"

text \<open>One record of the vector index: what \<open>collection.add\<close> stores for one chunk.\<close>

record entry =
  e_id :: string
  e_embedding :: "real list"
  e_document :: string
  e_metadata :: metadata

text \<open>One value of \<open>self.index["documents"]\<close>.\<close>

record doc_info =
  d_doc_id :: string
  d_title :: string
  d_metadata :: metadata
  d_added_at :: string
  d_chunk_count :: nat
  d_char_count :: nat
  d_word_count :: nat

text \<open>
  The external capabilities: the embedding model, the metric of the vector index, the
  MD5 digest, and the language model, whose failure (any exception inside the
  \<open>try\<close> block) is \<open>Inl\<close> of the exception's text.
\<close>

record env =
  encode :: "string \<Rightarrow> real list"
  distance :: "real list \<Rightarrow> real list \<Rightarrow> real"
  md5_hexdigest :: "string \<Rightarrow> string"
  generate_content :: "string \<Rightarrow> string + string"

datatype py_error = KeyError string | TypeError string

subsection \<open>The vector index\<close>

text \<open>
  The index is an external library. Its model: a sequence of records, one for each id;
  \<open>add\<close> stores the given records one by one and ignores a record whose id is already
  stored; \<open>get\<close> and \<open>query\<close> with \<open>where = {key: value}\<close> see the records whose
  metadata has that value under that key; \<open>query\<close> raises a \<open>TypeError\<close> when
  \<open>n_results\<close> is not positive, and otherwise returns the \<open>n_results\<close> nearest records,
  nearest first; \<open>delete(ids)\<close> removes the records with these ids. The library
  refuses an \<open>add\<close> whose records share an id among themselves; \<open>add_document\<close> never
  makes such a call, since the chunk numbers of one document differ.
\<close>

typedef vindex = "{xs :: entry list. distinct (map e_id xs)}"
  morphisms records Abs_vindex
  by (rule exI [of _ "[]"]) simp

setup_lifting type_definition_vindex

lift_definition empty_index :: vindex is "[]"
  by simp

definition add_record :: "entry \<Rightarrow> entry list \<Rightarrow> entry list" where
  "add_record e xs = (if e_id e \<in> set (map e_id xs) then xs else xs @ [e])"

lift_definition coll_add :: "entry list \<Rightarrow> vindex \<Rightarrow> vindex" is
  "\<lambda>new xs. fold add_record new xs"
proof -
  fix new xs :: "entry list"
  assume "distinct (map e_id xs)"
  then show "distinct (map e_id (fold add_record new xs))"
    by (induction new arbitrary: xs) (auto simp: add_record_def)
qed

lift_definition coll_delete :: "string list \<Rightarrow> vindex \<Rightarrow> vindex" is
  "\<lambda>ids xs. filter (\<lambda>e. e_id e \<notin> set ids) xs"
  by (simp add: distinct_map_filter)

definition index_of :: "entry list \<Rightarrow> vindex" where
  \<comment> \<open>the index that holds the given records, added to an empty one\<close>
  "index_of xs = coll_add xs empty_index"

definition where_match :: "(string \<times> mval) option \<Rightarrow> entry \<Rightarrow> bool" where
  "where_match w e = (case w of None \<Rightarrow> True | Some (k, v) \<Rightarrow> e_metadata e k = Some v)"

definition coll_count :: "vindex \<Rightarrow> nat" where
  "coll_count coll = length (records coll)"

definition coll_get_ids :: "(string \<times> mval) option \<Rightarrow> vindex \<Rightarrow> string list" where
  "coll_get_ids w coll = map e_id (filter (where_match w) (records coll))"

record hit =
  h_id :: string
  h_metadata :: metadata
  h_document :: string
  h_distance :: real

definition to_hit :: "(real list \<Rightarrow> real list \<Rightarrow> real) \<Rightarrow> real list \<Rightarrow> entry \<Rightarrow> hit" where
  "to_hit metric q e =
     \<lparr>h_id = e_id e, h_metadata = e_metadata e, h_document = e_document e,
      h_distance = metric q (e_embedding e)\<rparr>"

definition nearest ::
  "(real list \<Rightarrow> real list \<Rightarrow> real) \<Rightarrow> real list \<Rightarrow> nat \<Rightarrow> (string \<times> mval) option \<Rightarrow> vindex \<Rightarrow> hit list" where
  "nearest metric q n w coll =
     take n (sort_key h_distance (map (to_hit metric q) (filter (where_match w) (records coll))))"

definition str_int :: "int \<Rightarrow> string" where
  \<comment> \<open>\<open>str(n)\<close> for an integer\<close>
  "str_int n = (if n < 0 then ''-'' @ str_nat (nat (- n)) else str_nat (nat n))"

definition coll_query ::
  "(real list \<Rightarrow> real list \<Rightarrow> real) \<Rightarrow> real list \<Rightarrow> int \<Rightarrow> (string \<times> mval) option \<Rightarrow> vindex
   \<Rightarrow> py_error + hit list" where
  "coll_query metric q n_results w coll =
     (if n_results \<le> 0
      then Inl (TypeError (''Number of requested results '' @ str_int n_results
                            @ '', cannot be negative, or zero.''))
      else Inr (nearest metric q (nat n_results) w coll))"

text \<open>
  The chunks of a document are the records whose id is the document's id, an underscore
  and a chunk number, as \<open>add_document\<close> names them.
\<close>

definition chunk_of :: "string \<Rightarrow> entry \<Rightarrow> bool" where
  "chunk_of doc_id e \<longleftrightarrow> (\<exists>i. e_id e = doc_id @ ''_'' @ str_nat i)"

subsection \<open>The state\<close>

text \<open>
  The state of the tool: the registry index, the stored document bodies (one file
  \<open>{doc_id}.txt\<close> per document, keyed here by \<open>doc_id\<close>) and the vector index.
\<close>

record rag_state =
  index :: "string \<rightharpoonup> doc_info"
  files :: "string \<rightharpoonup> string"
  collection :: vindex

subsection \<open>\<open>add_document\<close>\<close>

definition generate_doc_id :: "env \<Rightarrow> string \<Rightarrow> string" where
  \<comment> \<open>\<open>hashlib.md5(content.encode()).hexdigest()[:16]\<close>\<close>
  "generate_doc_id E content = take 16 (md5_hexdigest E content)"

datatype add_result =
    Add_Existing (ar_doc_id: string) (ar_message: string)
  | Add_Ok (ar_doc_id: string) (ar_title: string) (ar_chunks_created: nat) (ar_message: string)

fun add_success :: "add_result \<Rightarrow> bool" where
  "add_success (Add_Existing _ _) = False"
| "add_success (Add_Ok _ _ _ _) = True"

definition provenance :: "string \<Rightarrow> string \<Rightarrow> chunk \<Rightarrow> metadata" where
  "provenance doc_id title c =
     [''doc_id'' \<mapsto> MStr doc_id, ''title'' \<mapsto> MStr title,
      ''chunk_index'' \<mapsto> MInt (int (c_chunk_id c)), ''length'' \<mapsto> MInt (int (c_length c))]"

definition chunk_metadata :: "string \<Rightarrow> string \<Rightarrow> metadata option \<Rightarrow> chunk \<Rightarrow> metadata" where
  \<comment> \<open>\<open>{"doc_id": .., "title": .., "chunk_index": .., "length": .., **(metadata or {})}\<close>\<close>
  "chunk_metadata doc_id title metadata c =
     provenance doc_id title c ++ (case metadata of None \<Rightarrow> Map.empty | Some m \<Rightarrow> m)"

definition chunk_entry :: "env \<Rightarrow> string \<Rightarrow> string \<Rightarrow> metadata option \<Rightarrow> chunk \<Rightarrow> entry" where
  "chunk_entry E doc_id title metadata c =
     \<lparr>e_id = doc_id @ ''_'' @ str_nat (c_chunk_id c),
      e_embedding = encode E (c_text c),
      e_document = c_text c,
      e_metadata = chunk_metadata doc_id title metadata c\<rparr>"

definition add_document ::
  "env \<Rightarrow> string \<Rightarrow> string \<Rightarrow> metadata option \<Rightarrow> string option \<Rightarrow> string \<Rightarrow> rag_state
   \<Rightarrow> add_result \<times> rag_state" where
  \<comment> \<open>\<open>now\<close> is \<open>datetime.now().isoformat()\<close>\<close>
  "add_document E content title metadata doc_id_opt now s =
     (let doc_id = (case doc_id_opt of None \<Rightarrow> generate_doc_id E content | Some d \<Rightarrow> d)
      in if index s doc_id \<noteq> None
         then (Add_Existing doc_id ''Document already exists'', s)
         else
           let chunks = rag_chunk_text content 500 100;
               entries = map (chunk_entry E doc_id title metadata) chunks;
               info = \<lparr>d_doc_id = doc_id, d_title = title,
                       d_metadata = (case metadata of None \<Rightarrow> Map.empty | Some m \<Rightarrow> m),
                       d_added_at = now, d_chunk_count = length chunks,
                       d_char_count = length content,
                       d_word_count = length (py_split content)\<rparr>
           in (Add_Ok doc_id title (length chunks)
                 (''Document '' @ [CHR 0x27] @ title @ [CHR 0x27] @ '' added successfully''),
               s\<lparr>files := (files s)(doc_id \<mapsto> content),
                 collection := coll_add entries (collection s),
                 index := (index s)(doc_id \<mapsto> info)\<rparr>))"

subsection \<open>\<open>search_documents\<close>\<close>

record search_hit =
  r_chunk_id :: string
  r_doc_id :: mval
  r_text :: string
  r_similarity :: real
  r_doc_title :: mval

record search_out =
  so_success :: bool
  so_query :: string
  so_results_count :: nat
  so_total_searched :: nat
  so_results :: "search_hit list"

fun format_results :: "hit list \<Rightarrow> py_error + search_hit list" where
  "format_results [] = Inr []"
| "format_results (h # hs) =
     (case h_metadata h ''doc_id'' of
        None \<Rightarrow> Inl (KeyError ''doc_id'')
      | Some d \<Rightarrow>
          (case h_metadata h ''title'' of
             None \<Rightarrow> Inl (KeyError ''title'')
           | Some t \<Rightarrow>
               (case format_results hs of
                  Inl err \<Rightarrow> Inl err
                | Inr rs \<Rightarrow>
                    Inr (\<lparr>r_chunk_id = h_id h, r_doc_id = d, r_text = h_document h,
                          r_similarity = 1 - h_distance h, r_doc_title = t\<rparr> # rs))))"

definition where_filter :: "string option \<Rightarrow> (string \<times> mval) option" where
  \<comment> \<open>\<open>if doc_filter: where_filter = {"doc_id": doc_filter}\<close>; an empty string is falsy\<close>
  "where_filter doc_filter =
     (case doc_filter of
        None \<Rightarrow> None
      | Some d \<Rightarrow> if d \<noteq> [] then Some (''doc_id'', MStr d) else None)"

definition raw_hits :: "env \<Rightarrow> string \<Rightarrow> int \<Rightarrow> string option \<Rightarrow> rag_state \<Rightarrow> hit list" where
  \<comment> \<open>the hits that \<open>self.collection.query\<close> reports inside \<open>search_documents\<close> when it
      returns\<close>
  "raw_hits E query top_k doc_filter s =
     nearest (distance E) (encode E query) (nat top_k) (where_filter doc_filter) (collection s)"

definition search_documents ::
  "env \<Rightarrow> string \<Rightarrow> int \<Rightarrow> string option \<Rightarrow> rag_state \<Rightarrow> py_error + search_out" where
  "search_documents E query top_k doc_filter s =
     (case coll_query (distance E) (encode E query) top_k (where_filter doc_filter) (collection s) of
        Inl err \<Rightarrow> Inl err
      | Inr hits \<Rightarrow>
          (case format_results hits of
             Inl err \<Rightarrow> Inl err
           | Inr rs \<Rightarrow>
               Inr \<lparr>so_success = True, so_query = query, so_results_count = length rs,
                    so_total_searched = coll_count (collection s), so_results = rs\<rparr>))"

subsection \<open>\<open>query_document\<close>\<close>

datatype query_result =
    Query_Failed (qr_message: string)
  | Query_Ok (qr_doc_id: string) (qr_doc_title: string) (qr_question: string)
      (qr_answer: string) (qr_sources: "search_hit list")

fun query_success :: "query_result \<Rightarrow> bool" where
  "query_success (Query_Failed _) = False"
| "query_success (Query_Ok _ _ _ _ _) = True"

definition query_prompt :: "string \<Rightarrow> string \<Rightarrow> string \<Rightarrow> string" where
  "query_prompt title context question =
     ''Based on the following document excerpts, answer the question.'' @ [nl, nl]
     @ ''Document: '' @ title @ [nl, nl]
     @ ''Context:'' @ [nl] @ context @ [nl, nl]
     @ ''Question: '' @ question @ [nl, nl]
     @ ''Provide a clear, accurate answer based only on the context provided. If the answer cannot be found in the context, say so.''
     @ [nl, nl] @ ''Answer:''"

definition fallback_answer :: "string \<Rightarrow> string \<Rightarrow> string" where
  \<comment> \<open>the \<open>except\<close> branch's answer\<close>
  "fallback_answer err context =
     ''Error generating answer: '' @ err @ [nl, nl] @ ''Relevant context found:'' @ [nl]
     @ py_slice_to 500 context @ ''...''"

definition query_document :: "env \<Rightarrow> string \<Rightarrow> string \<Rightarrow> rag_state \<Rightarrow> py_error + query_result" where
  "query_document E doc_id question s =
     (case index s doc_id of
        None \<Rightarrow> Inr (Query_Failed (''Document '' @ doc_id @ '' not found''))
      | Some info \<Rightarrow>
          (case search_documents E question 3 (Some doc_id) s of
             Inl err \<Rightarrow> Inl err
           | Inr search_results \<Rightarrow>
               if so_results search_results = []
               then Inr (Query_Failed ''No relevant content found in document'')
               else
                 let context = py_join [nl, nl] (map r_text (so_results search_results));
                     answer = (case generate_content E (query_prompt (d_title info) context question) of
                                 Inr response_text \<Rightarrow> response_text
                               | Inl err \<Rightarrow> fallback_answer err context)
                 in Inr (Query_Ok doc_id (d_title info) question answer (so_results search_results))))"

subsection \<open>\<open>delete_document\<close>\<close>

datatype delete_result =
    Delete_Failed (dr_message: string)
  | Delete_Ok (dr_doc_id: string) (dr_title: string) (dr_chunks_deleted: nat) (dr_message: string)

fun delete_success :: "delete_result \<Rightarrow> bool" where
  "delete_success (Delete_Failed _) = False"
| "delete_success (Delete_Ok _ _ _ _) = True"

definition delete_document :: "string \<Rightarrow> rag_state \<Rightarrow> delete_result \<times> rag_state" where
  "delete_document doc_id s =
     (case index s doc_id of
        None \<Rightarrow> (Delete_Failed (''Document '' @ doc_id @ '' not found''), s)
      | Some info \<Rightarrow>
          let chunk_ids = coll_get_ids (Some (''doc_id'', MStr doc_id)) (collection s)
          in (Delete_Ok doc_id (d_title info) (if chunk_ids \<noteq> [] then length chunk_ids else 0)
                (''Document '' @ [CHR 0x27] @ d_title info @ [CHR 0x27] @ '' deleted successfully''),
              s\<lparr>collection := (if chunk_ids \<noteq> [] then coll_delete chunk_ids (collection s)
                                else collection s),
                files := (files s)(doc_id := None),
                index := (index s)(doc_id := None)\<rparr>))"

subsection \<open>\<open>semantic_search_all\<close>\<close>

record doc_group =
  g_doc_id :: mval
  g_title :: mval
  g_max_similarity :: real
  g_chunk_count :: nat
  g_top_chunks :: "search_hit list"

text \<open>
  \<open>doc_groups\<close> is a dictionary, which keeps its keys in the order of their first
  insertion: an association list, updated in place.
\<close>

definition group_step :: "(mval \<times> doc_group) list \<Rightarrow> search_hit \<Rightarrow> (mval \<times> doc_group) list" where
  "group_step doc_groups result =
     (case map_of doc_groups (r_doc_id result) of
        None \<Rightarrow>
          doc_groups @
          [(r_doc_id result,
            \<lparr>g_doc_id = r_doc_id result, g_title = r_doc_title result,
             g_max_similarity = r_similarity result, g_chunk_count = 1,
             g_top_chunks = [result]\<rparr>)]
      | Some g \<Rightarrow>
          AList.update (r_doc_id result)
            (g\<lparr>g_chunk_count := g_chunk_count g + 1,
               g_top_chunks := g_top_chunks g @ [result],
               g_max_similarity := (if r_similarity result > g_max_similarity g
                                    then r_similarity result else g_max_similarity g)\<rparr>)
            doc_groups)"

definition group_by_doc :: "search_hit list \<Rightarrow> (mval \<times> doc_group) list" where
  "group_by_doc results = foldl group_step [] results"

definition ranked_groups :: "search_hit list \<Rightarrow> doc_group list" where
  \<comment> \<open>\<open>sorted(doc_groups.values(), key=lambda x: x['max_similarity'], reverse=True)\<close>:
      a stable sort, groups of equal key stay in insertion order\<close>
  "ranked_groups results =
     sort_key (\<lambda>g. - g_max_similarity g) (map snd (group_by_doc results))"

record grouped_out =
  sa_success :: bool
  sa_query :: string
  sa_documents :: "doc_group list"
  sa_total_docs_found :: "nat option"

definition semantic_search_all :: "env \<Rightarrow> string \<Rightarrow> int \<Rightarrow> rag_state \<Rightarrow> py_error + grouped_out" where
  "semantic_search_all E query top_k s =
     (case search_documents E query (top_k * 2) None s of
        Inl err \<Rightarrow> Inl err
      | Inr results \<Rightarrow>
          if so_results results = []
          then Inr \<lparr>sa_success = True, sa_query = query, sa_documents = [],
                    sa_total_docs_found = None\<rparr>
          else
            let documents = py_slice_to top_k (ranked_groups (so_results results))
            in Inr \<lparr>sa_success = True, sa_query = query, sa_documents = documents,
                    sa_total_docs_found = Some (length documents)\<rparr>)"

text \<open>
  What a group built from the search results \<open>rs\<close> under the key \<open>k\<close> has to hold: the
  results of that document in retrieval order, their number, the title of the first and
  the largest of their similarities.
\<close>

definition group_ok :: "search_hit list \<Rightarrow> mval \<Rightarrow> doc_group \<Rightarrow> bool" where
  "group_ok rs k g \<longleftrightarrow>
     g_doc_id g = k
     \<and> g_top_chunks g = filter (\<lambda>r. r_doc_id r = k) rs
     \<and> g_top_chunks g \<noteq> []
     \<and> g_title g = r_doc_title (hd (g_top_chunks g))
     \<and> g_chunk_count g = length (g_top_chunks g)
     \<and> g_max_similarity g = Max (r_similarity ` set (g_top_chunks g))"

section \<open>Lexical question answering: \<open>ReasoningEngine\<close>\<close>

fun doc_chunk_step :: "int \<Rightarrow> string list \<times> string \<times> int \<Rightarrow> string \<Rightarrow> string list \<times> string \<times> int" where
  "doc_chunk_step chunk_size (chunks, current_chunk, current_length) paragraph =
     (if current_length + int (length paragraph) + 2 \<le> chunk_size
      then (chunks, current_chunk @ paragraph @ [nl, nl],
            current_length + int (length paragraph) + 2)
      else ((if current_chunk \<noteq> [] then chunks @ [py_strip current_chunk] else chunks),
            paragraph @ [nl, nl], int (length paragraph) + 2))"

definition chunk_document :: "string \<Rightarrow> int \<Rightarrow> string list" where
  \<comment> \<open>\<open>_chunk_document(text, chunk_size)\<close>\<close>
  "chunk_document text chunk_size =
     (case foldl (doc_chunk_step chunk_size) ([], [], 0) (split_nl text) of
        (chunks, current_chunk, current_length) \<Rightarrow>
          if current_chunk \<noteq> [] then chunks @ [py_strip current_chunk] else chunks)"

definition upper_chars :: string where
  \<comment> \<open>the code points below 256 that \<open>str.lower\<close> changes: A to Z, and 192 to 222 except 215\<close>
  "upper_chars = ''ABCDEFGHIJKLMNOPQRSTUVWXYZ'' @
       [CHR 0xC0, CHR 0xC1, CHR 0xC2, CHR 0xC3, CHR 0xC4, CHR 0xC5, CHR 0xC6, CHR 0xC7, CHR
        0xC8, CHR 0xC9, CHR 0xCA, CHR 0xCB, CHR 0xCC, CHR 0xCD, CHR 0xCE, CHR 0xCF, CHR 0xD0,
        CHR 0xD1, CHR 0xD2, CHR 0xD3, CHR 0xD4, CHR 0xD5, CHR 0xD6, CHR 0xD8, CHR 0xD9, CHR
        0xDA, CHR 0xDB, CHR 0xDC, CHR 0xDD, CHR 0xDE]"

definition lower_chars :: string where
  \<comment> \<open>their lower-case forms, 32 code points higher, in the same order\<close>
  "lower_chars = ''abcdefghijklmnopqrstuvwxyz'' @
       [CHR 0xE0, CHR 0xE1, CHR 0xE2, CHR 0xE3, CHR 0xE4, CHR 0xE5, CHR 0xE6, CHR 0xE7, CHR
        0xE8, CHR 0xE9, CHR 0xEA, CHR 0xEB, CHR 0xEC, CHR 0xED, CHR 0xEE, CHR 0xEF, CHR 0xF0,
        CHR 0xF1, CHR 0xF2, CHR 0xF3, CHR 0xF4, CHR 0xF5, CHR 0xF6, CHR 0xF8, CHR 0xF9, CHR
        0xFA, CHR 0xFB, CHR 0xFC, CHR 0xFD, CHR 0xFE]"

definition py_lower_char :: "char \<Rightarrow> char" where
  "py_lower_char c = (case map_of (zip upper_chars lower_chars) c of Some l \<Rightarrow> l | None \<Rightarrow> c)"

definition py_lower :: "string \<Rightarrow> string" where
  "py_lower s = map py_lower_char s"

definition lexical_overlap :: "string list \<Rightarrow> string \<Rightarrow> nat" where
  \<comment> \<open>\<open>len(query_words.intersection(set(chunk.lower().split())))\<close>\<close>
  "lexical_overlap query_words chunk = card (set query_words \<inter> set (py_split (py_lower chunk)))"

definition chunk_scores :: "string \<Rightarrow> string list \<Rightarrow> (nat \<times> nat \<times> string) list" where
  "chunk_scores query chunks =
     map (\<lambda>(i, chunk). (i, lexical_overlap (py_split (py_lower query)) chunk, chunk))
       (enumerate 0 chunks)"

definition top_scored :: "string \<Rightarrow> string list \<Rightarrow> (nat \<times> nat \<times> string) list" where
  \<comment> \<open>\<open>chunk_scores.sort(key=lambda x: x[1], reverse=True)\<close>, a stable sort, then
      \<open>chunk_scores[:3]\<close>\<close>
  "top_scored query chunks =
     take 3 (sort_key (\<lambda>(i, overlap, chunk). - int overlap) (chunk_scores query chunks))"

definition relevant_chunks :: "string \<Rightarrow> string list \<Rightarrow> string list" where
  "relevant_chunks query chunks = map (\<lambda>(i, overlap, chunk). chunk) (top_scored query chunks)"

definition qa_context :: "string \<Rightarrow> string \<Rightarrow> string" where
  "qa_context document_text query =
     py_join ([nl, nl] @ ''---'' @ [nl, nl]) (relevant_chunks query (chunk_document document_text 1500))"

definition qa_prompt :: "string \<Rightarrow> string \<Rightarrow> string" where
  "qa_prompt context query =
     [nl] @ ''Based on the following document excerpts, answer the question accurately and concisely.''
     @ [nl, nl] @ ''DOCUMENT EXCERPTS:'' @ [nl] @ context @ [nl, nl]
     @ ''QUESTION: '' @ query @ [nl, nl]
     @ ''Provide a clear answer based ONLY on the document content. If the information is not in the document, state that clearly. Cite specific parts of the document when possible.''
     @ [nl, nl] @ ''ANSWER:'' @ [nl]"

datatype qa_result =
    Qa_Ok (qa_analysis: string) (qa_type: string) (qa_query: string) (qa_chunks_used: nat)
  | Qa_Error (qa_error: string)

definition answer_document_question :: "(string \<Rightarrow> string + string) \<Rightarrow> string \<Rightarrow> string \<Rightarrow> qa_result" where
  \<comment> \<open>\<open>generate\<close> is \<open>self.model.generate_content\<close>; \<open>Inl\<close> is the text of its exception\<close>
  "answer_document_question generate document_text query =
     (case generate (qa_prompt (qa_context document_text query) query) of
        Inr response_text \<Rightarrow>
          Qa_Ok response_text ''qa'' query
            (length (relevant_chunks query (chunk_document document_text 1500)))
      | Inl err \<Rightarrow> Qa_Error err)"

definition analyze_legal_document ::
  "(string \<Rightarrow> string + string) \<Rightarrow> (string \<Rightarrow> string \<Rightarrow> 'r) \<Rightarrow> string \<Rightarrow> string \<Rightarrow> string option
   \<Rightarrow> qa_result + 'r" where
  \<comment> \<open>\<open>other\<close> stands for the comprehensive, summary and specific analyses\<close>
  "analyze_legal_document generate other document_text analysis_type query =
     (case query of
        Some q \<Rightarrow>
          if analysis_type = ''qa'' \<and> q \<noteq> []
          then Inl (answer_document_question generate document_text q)
          else Inr (other document_text analysis_type)
      | None \<Rightarrow> Inr (other document_text analysis_type))"

text \<open>
  The order in which the sort leaves the scored chunks: a higher overlap first, and among
  equal overlaps the earlier chunk first. \<open>neg_score\<close> is the sort key: descending
  overlap is ascending negated overlap.
\<close>

definition ranks_before :: "nat \<times> nat \<times> string \<Rightarrow> nat \<times> nat \<times> string \<Rightarrow> bool" where
  "ranks_before a b \<longleftrightarrow>
     fst (snd a) > fst (snd b) \<or> (fst (snd a) = fst (snd b) \<and> fst a < fst b)"

definition neg_score :: "nat \<times> nat \<times> string \<Rightarrow> int" where
  "neg_score = (\<lambda>(i, overlap, chunk). - int overlap)"

section \<open>Example inputs\<close>

definition sq_l2 :: "real list \<Rightarrow> real list \<Rightarrow> real" where
  \<comment> \<open>squared Euclidean distance, the default metric of the vector index\<close>
  "sq_l2 u v = sum_list (map (\<lambda>(a, b). (a - b) * (a - b)) (zip u v))"

definition ex_encode :: "string \<Rightarrow> real list" where
  "ex_encode t = (if t = ''north'' then [1, 0] else if t = ''south'' then [-1, 0] else [0, 1])"

definition ex_env :: env where
  "ex_env = \<lparr>encode = ex_encode, distance = sq_l2, md5_hexdigest = (\<lambda>c. ''0123456789abcdef0123456789abcdef''),
             generate_content = (\<lambda>p. Inl ''quota exceeded'')\<rparr>"

definition ex_info :: "string \<Rightarrow> doc_info" where
  "ex_info d = \<lparr>d_doc_id = d, d_title = ''T'', d_metadata = Map.empty, d_added_at = ''2024-01-01T00:00:00'',
               d_chunk_count = 1, d_char_count = 5, d_word_count = 1\<rparr>"

definition ex_entry :: "string \<Rightarrow> string \<Rightarrow> entry" where
  "ex_entry d t =
     \<lparr>e_id = d @ ''_0'', e_embedding = ex_encode t, e_document = t,
      e_metadata = [''doc_id'' \<mapsto> MStr d, ''title'' \<mapsto> MStr ''T'',
                    ''chunk_index'' \<mapsto> MInt 0, ''length'' \<mapsto> MInt 7]\<rparr>"

definition ex_state :: rag_state where
  "ex_state = \<lparr>index = [''d1'' \<mapsto> ex_info ''d1'', ''d2'' \<mapsto> ex_info ''d2''],
               files = [''d1'' \<mapsto> ''north'', ''d2'' \<mapsto> ''south''],
               collection = index_of [ex_entry ''d1'' ''north'', ex_entry ''d2'' ''south'']\<rparr>"

definition empty_state :: rag_state where
  \<comment> \<open>a fresh store: \<open>_load_index\<close> gives \<open>{"documents": {}}\<close>\<close>
  "empty_state = \<lparr>index = Map.empty, files = Map.empty, collection = empty_index\<rparr>"

definition ex_out :: search_out where
  \<comment> \<open>what the unfiltered search for \<open>north\<close> returns on \<open>ex_state\<close>\<close>
  "ex_out = \<lparr>so_success = True, so_query = ''north'', so_results_count = 2, so_total_searched = 2,
          so_results = [\<lparr>r_chunk_id = ''d1_0'', r_doc_id = MStr ''d1'', r_text = ''north'',
                          r_similarity = 1, r_doc_title = MStr ''T''\<rparr>,
                        \<lparr>r_chunk_id = ''d2_0'', r_doc_id = MStr ''d2'', r_text = ''south'',
                          r_similarity = -3, r_doc_title = MStr ''T''\<rparr>]\<rparr>"

definition ex_out1 :: search_out where
  \<comment> \<open>what the search for \<open>north\<close> inside document \<open>d1\<close> returns on \<open>ex_state\<close>\<close>
  "ex_out1 = \<lparr>so_success = True, so_query = ''north'', so_results_count = 1, so_total_searched = 2,
          so_results = [\<lparr>r_chunk_id = ''d1_0'', r_doc_id = MStr ''d1'', r_text = ''north'',
                          r_similarity = 1, r_doc_title = MStr ''T''\<rparr>]\<rparr>"

definition ex_state3 :: rag_state where
  \<comment> \<open>a registered document whose only chunk carries another \<open>doc_id\<close> in its metadata\<close>
  "ex_state3 = \<lparr>index = [''d3'' \<mapsto> ex_info ''d3''],
                files = [''d3'' \<mapsto> ''north''],
                collection = index_of [(ex_entry ''d3'' ''north'')\<lparr>e_metadata :=
                   [''doc_id'' \<mapsto> MStr ''elsewhere'', ''title'' \<mapsto> MStr ''T'',
                    ''chunk_index'' \<mapsto> MInt 0, ''length'' \<mapsto> MInt 7]\<rparr>]\<rparr>"

definition ex_out3 :: search_out where
  "ex_out3 = \<lparr>so_success = True, so_query = ''north'', so_results_count = 0, so_total_searched = 1,
          so_results = []\<rparr>"

definition ex_state7 :: rag_state where
  \<comment> \<open>two documents, one of them registered under the empty string as its id\<close>
  "ex_state7 = \<lparr>index = [[] \<mapsto> ex_info [], ''d2'' \<mapsto> ex_info ''d2''],
               files = [[] \<mapsto> ''north'', ''d2'' \<mapsto> ''south''],
               collection = index_of [ex_entry [] ''north'', ex_entry ''d2'' ''south'']\<rparr>"

definition ex_meta :: metadata where
  "ex_meta = [''doc_id'' \<mapsto> MStr ''other'', ''user_id'' \<mapsto> MInt 7]"

definition ex_entry9 :: entry where
  \<comment> \<open>the chunk of document \<open>d9\<close>, ingested with a caller's \<open>doc_id\<close> in the metadata\<close>
  "ex_entry9 =
     chunk_entry ex_env ''d9'' ''T'' (Some ex_meta) \<lparr>c_chunk_id = 0, c_text = ''north'', c_length = 7\<rparr>"

definition ex_state9 :: rag_state where
  \<comment> \<open>the empty store after \<open>add_document("north", "T", {"doc_id": "other", "user_id": 7}, "d9")\<close>\<close>
  "ex_state9 =
     \<lparr>index = [''d9'' \<mapsto> \<lparr>d_doc_id = ''d9'', d_title = ''T'', d_metadata = ex_meta,
                             d_added_at = ''2024-01-01T00:00:00'', d_chunk_count = 1,
                             d_char_count = 5, d_word_count = 1\<rparr>],
      files = [''d9'' \<mapsto> ''north''],
      collection = index_of [ex_entry9]\<rparr>"

definition ex_state9_deleted :: rag_state where
  \<comment> \<open>\<open>ex_state9\<close> after \<open>delete_document("d9")\<close>: the chunk is still in the vector index\<close>
  "ex_state9_deleted = \<lparr>index = Map.empty, files = Map.empty, collection = index_of [ex_entry9]\<rparr>"

definition ex_state4 :: rag_state where
  \<comment> \<open>document \<open>d1\<close> with two chunks, document \<open>d2\<close> with one\<close>
  "ex_state4 = \<lparr>index = [''d1'' \<mapsto> ex_info ''d1'', ''d2'' \<mapsto> ex_info ''d2''],
               files = [''d1'' \<mapsto> ''north'', ''d2'' \<mapsto> ''east''],
               collection = index_of [ex_entry ''d1'' ''north'', ex_entry ''d2'' ''east'',
                             (ex_entry ''d1'' ''south'')\<lparr>e_id := ''d1_1''\<rparr>]\<rparr>"

definition ex_hit :: "string \<Rightarrow> string \<Rightarrow> string \<Rightarrow> real \<Rightarrow> search_hit" where
  "ex_hit i d t sim = \<lparr>r_chunk_id = i, r_doc_id = MStr d, r_text = t, r_similarity = sim, r_doc_title = MStr ''T''\<rparr>"

definition ex_out4 :: search_out where
  "ex_out4 = \<lparr>so_success = True, so_query = ''north'', so_results_count = 3, so_total_searched = 3,
          so_results = [ex_hit ''d1_0'' ''d1'' ''north'' 1, ex_hit ''d2_0'' ''d2'' ''east'' (-1),
                        ex_hit ''d1_1'' ''d1'' ''south'' (-3)]\<rparr>"

definition ex_chunks :: "string list" where
  "ex_chunks = [''alpha beta'', ''gamma'', ''Alpha'', ''beta alpha'', ''alpha'']"


section \<open>Properties\<close>

lemma py_isspace_nl [simp]: "py_isspace nl"
  by (simp add: py_isspace_def nl_def)

text \<open>
  C5 (the paragraph-aware half fails). On the empty text \<open>_chunk_text\<close> returns one chunk
  whose text is empty and whose length is 2, and on three blanks one chunk whose text is
  empty and whose length is 5: the buffer always ends in the two newlines appended after
  a paragraph, so the final \<open>if current_chunk\<close> never skips it.
\<close>

theorem rag_chunk_text_blank_not_empty:
  "rag_chunk_text [] 500 100 = [\<lparr>c_chunk_id = 0, c_text = [], c_length = 2\<rparr>]
   \<and> rag_chunk_text ''   '' 500 100 = [\<lparr>c_chunk_id = 0, c_text = [], c_length = 5\<rparr>]"
  by (simp add: rag_chunk_text_def split_nlnl_def emit_chunk_def py_strip_def py_isspace_def nl_def)

lemma chunk_text_blank:
  "text = [] \<or> py_strip text = [] \<Longrightarrow> chunk_text text chunk_size overlap = Some []"
  by (simp add: chunk_text_def)

subsection \<open>The example store\<close>

lemma records_empty_index [simp]: "records empty_index = []"
  by (rule empty_index.rep_eq)

lemma records_index_of: "records (index_of xs) = fold add_record xs []"
  by (simp add: index_of_def coll_add.rep_eq)

lemma distinct_records: "distinct (map e_id (records coll))"
  using records [of coll] by simp

lemma search_documents_hits:
  assumes "search_documents E query top_k doc_filter s = Inr out"
  shows "0 < top_k" and "format_results (raw_hits E query top_k doc_filter s) = Inr (so_results out)"
    and "so_total_searched out = coll_count (collection s)" and "so_query out = query"
    and "so_results_count out = length (so_results out)"
  using assms
  by (auto simp: search_documents_def coll_query_def raw_hits_def split: if_splits sum.splits)

lemma search_documents_positive:
  assumes "0 < top_k"
  shows "search_documents E query top_k doc_filter s =
     (case format_results (raw_hits E query top_k doc_filter s) of
        Inl err \<Rightarrow> Inl err
      | Inr rs \<Rightarrow>
          Inr \<lparr>so_success = True, so_query = query, so_results_count = length rs,
               so_total_searched = coll_count (collection s), so_results = rs\<rparr>)"
  using assms by (simp add: search_documents_def coll_query_def raw_hits_def)

lemma ex_records: "records (collection ex_state) = [ex_entry ''d1'' ''north'', ex_entry ''d2'' ''south'']"
  by (simp add: ex_state_def records_index_of add_record_def ex_entry_def)

lemma ex_count: "coll_count (collection ex_state) = 2"
  by (simp add: coll_count_def ex_records)

lemma ex_hits:
  "raw_hits ex_env ''north'' 5 None ex_state =
     [to_hit sq_l2 [1, 0] (ex_entry ''d1'' ''north''), to_hit sq_l2 [1, 0] (ex_entry ''d2'' ''south'')]"
  unfolding raw_hits_def nearest_def ex_records
  by (simp add: ex_env_def where_filter_def where_match_def ex_encode_def to_hit_def sq_l2_def ex_entry_def)

lemma ex_search_north: "search_documents ex_env ''north'' 5 None ex_state = Inr ex_out"
  unfolding search_documents_positive [of 5, simplified] ex_hits ex_count
  by (simp add: to_hit_def ex_entry_def sq_l2_def ex_encode_def ex_out_def)

lemma ex_hits_d1:
  "raw_hits ex_env ''north'' 3 (Some ''d1'') ex_state = [to_hit sq_l2 [1, 0] (ex_entry ''d1'' ''north'')]"
  unfolding raw_hits_def nearest_def ex_records
  by (simp add: ex_env_def where_filter_def where_match_def ex_encode_def to_hit_def sq_l2_def ex_entry_def)

lemma ex_search_d1: "search_documents ex_env ''north'' 3 (Some ''d1'') ex_state = Inr ex_out1"
  unfolding search_documents_positive [of 3, simplified] ex_hits_d1 ex_count
  by (simp add: to_hit_def ex_entry_def sq_l2_def ex_encode_def ex_out1_def)

lemma ex_index_d1: "index ex_state ''d1'' = Some (ex_info ''d1'')"
  by (simp add: ex_state_def)

lemma ex_generate: "generate_content ex_env p = Inl ''quota exceeded''"
  by (simp add: ex_env_def)

lemma ex_records3:
  "records (collection ex_state3) =
     [(ex_entry ''d3'' ''north'')\<lparr>e_metadata :=
        [''doc_id'' \<mapsto> MStr ''elsewhere'', ''title'' \<mapsto> MStr ''T'',
         ''chunk_index'' \<mapsto> MInt 0, ''length'' \<mapsto> MInt 7]\<rparr>]"
  by (simp add: ex_state3_def records_index_of add_record_def)

lemma ex_search_d3: "search_documents ex_env ''north'' 3 (Some ''d3'') ex_state3 = Inr ex_out3"
  unfolding search_documents_positive [of 3, simplified] raw_hits_def nearest_def coll_count_def ex_records3
  by (simp add: where_filter_def where_match_def ex_entry_def ex_out3_def)

subsection \<open>Duplicate ingestion\<close>

text \<open>
  C1. When the document id of the call (the explicit one, or the one derived from the
  content when none is given) is already in the registry index, \<open>add_document\<close> returns
  the failure result that names this id, and the state it returns is the state it was
  given: registry, stored bodies and vector index are all unchanged.
\<close>

theorem add_document_duplicate_unchanged:
  assumes "index s (case doc_id of None \<Rightarrow> generate_doc_id E content | Some d \<Rightarrow> d) \<noteq> None"
  shows "add_document E content title metadata doc_id now s =
           (Add_Existing (case doc_id of None \<Rightarrow> generate_doc_id E content | Some d \<Rightarrow> d)
              ''Document already exists'', s)"
  using assms by (simp add: add_document_def)

theorem add_document_duplicate_unchanged_witness:
  "index ex_state ''d1'' \<noteq> None
   \<and> add_document ex_env ''other text'' ''T2'' None (Some ''d1'') ''2024-02-02T00:00:00'' ex_state
       = (Add_Existing ''d1'' ''Document already exists'', ex_state)
   \<and> \<not> add_success (fst (add_document ex_env ''other text'' ''T2'' None (Some ''d1'') ''2024-02-02T00:00:00'' ex_state))"
proof -
  have h: "index ex_state (case Some ''d1'' of None \<Rightarrow> generate_doc_id ex_env ''other text'' | Some d \<Rightarrow> d) \<noteq> None"
    by (simp add: ex_state_def)
  show ?thesis
    using h add_document_duplicate_unchanged [OF h, of "''T2''" None "''2024-02-02T00:00:00''"]
    by simp
qed

subsection \<open>Search results\<close>

lemma format_results_nth:
  "format_results hs = Inr rs \<Longrightarrow>
   length rs = length hs \<and>
   (\<forall>i < length hs. r_chunk_id (rs ! i) = h_id (hs ! i) \<and> r_text (rs ! i) = h_document (hs ! i)
       \<and> r_similarity (rs ! i) = 1 - h_distance (hs ! i)
       \<and> h_metadata (hs ! i) ''doc_id'' = Some (r_doc_id (rs ! i))
       \<and> h_metadata (hs ! i) ''title'' = Some (r_doc_title (rs ! i)))"
proof (induction hs arbitrary: rs)
  case Nil
  then show ?case by simp
next
  case (Cons h hs)
  from Cons.prems obtain d t rs' where
    d: "h_metadata h ''doc_id'' = Some d" and t: "h_metadata h ''title'' = Some t"
    and rs': "format_results hs = Inr rs'"
    and rs: "rs = \<lparr>r_chunk_id = h_id h, r_doc_id = d, r_text = h_document h,
                   r_similarity = 1 - h_distance h, r_doc_title = t\<rparr> # rs'"
    by (auto split: option.splits sum.splits)
  from Cons.IH [OF rs'] have IH: "length rs' = length hs"
    "\<And>i. i < length hs \<Longrightarrow> r_chunk_id (rs' ! i) = h_id (hs ! i) \<and> r_text (rs' ! i) = h_document (hs ! i)
       \<and> r_similarity (rs' ! i) = 1 - h_distance (hs ! i)
       \<and> h_metadata (hs ! i) ''doc_id'' = Some (r_doc_id (rs' ! i))
       \<and> h_metadata (hs ! i) ''title'' = Some (r_doc_title (rs' ! i))"
    by blast+
  show ?case
  proof (intro conjI allI impI)
    show "length rs = length (h # hs)" using rs IH(1) by simp
  next
    fix i assume "i < length (h # hs)"
    then show "r_chunk_id (rs ! i) = h_id ((h # hs) ! i)"
      "r_text (rs ! i) = h_document ((h # hs) ! i)"
      "r_similarity (rs ! i) = 1 - h_distance ((h # hs) ! i)"
      "h_metadata ((h # hs) ! i) ''doc_id'' = Some (r_doc_id (rs ! i))"
      "h_metadata ((h # hs) ! i) ''title'' = Some (r_doc_title (rs ! i))"
      using rs d t IH(2) by (cases i; simp)+
  qed
qed

text \<open>
  C3, as the code has it. Every result of \<open>search_documents\<close> is the hit the vector index
  reported at the same position, and its similarity is 1 minus that hit's distance
  (over the reals). The similarity lies in the interval from 0 to 1 exactly when the
  distance does; nothing in the code clamps it.
\<close>

theorem search_similarity_is_one_minus_distance:
  assumes "search_documents E query top_k doc_filter s = Inr out"
  shows "length (so_results out) = length (raw_hits E query top_k doc_filter s)
    \<and> (\<forall>i < length (so_results out).
          r_chunk_id (so_results out ! i) = h_id (raw_hits E query top_k doc_filter s ! i)
        \<and> r_similarity (so_results out ! i) = 1 - h_distance (raw_hits E query top_k doc_filter s ! i)
        \<and> ((0 \<le> r_similarity (so_results out ! i) \<and> r_similarity (so_results out ! i) \<le> 1)
             \<longleftrightarrow> (0 \<le> h_distance (raw_hits E query top_k doc_filter s ! i)
                  \<and> h_distance (raw_hits E query top_k doc_filter s ! i) \<le> 1)))"
proof -
  from assms have fr: "format_results (raw_hits E query top_k doc_filter s) = Inr (so_results out)"
    by (rule search_documents_hits)
  from format_results_nth [OF fr] show ?thesis by auto
qed

theorem search_similarity_is_one_minus_distance_witness:
  "search_documents ex_env ''north'' 5 None ex_state = Inr ex_out
   \<and> map h_distance (raw_hits ex_env ''north'' 5 None ex_state) = [0, 4]
   \<and> map r_similarity (so_results ex_out) = [1, -3]
   \<and> length (so_results ex_out) = length (raw_hits ex_env ''north'' 5 None ex_state)
   \<and> r_similarity (so_results ex_out ! 1) = 1 - h_distance (raw_hits ex_env ''north'' 5 None ex_state ! 1)"
proof -
  have b: "map h_distance (raw_hits ex_env ''north'' 5 None ex_state) = [0, 4]"
    by (simp add: ex_hits to_hit_def ex_entry_def sq_l2_def ex_encode_def)
  have c: "map r_similarity (so_results ex_out) = [1, -3]" by (simp add: ex_out_def)
  have d: "1 < length (so_results ex_out)" by (simp add: ex_out_def)
  from search_similarity_is_one_minus_distance [OF ex_search_north] d ex_search_north b c
  show ?thesis by blast
qed

text \<open>
  C3 as stated fails. With the squared Euclidean metric and the unit vectors (1, 0) and
  (-1, 0) the index reports the distance 4, and the search returns the similarity -3,
  which is outside the interval from 0 to 1.
\<close>

theorem search_similarity_negative:
  "(case search_documents ex_env ''north'' 5 None ex_state of
      Inr out \<Rightarrow> map r_similarity (so_results out) = [1, -3]
    | Inl err \<Rightarrow> False)"
  by (simp add: ex_search_north ex_out_def)

subsection \<open>Question answering on one document\<close>

text \<open>
  C2, as the code has it. When the document is registered, the search inside it returns
  at least one chunk and the language model fails, \<open>query_document\<close> returns a result
  with success = true: its answer is the error text followed by the first 500 characters
  of the retrieved context, and its sources are the retrieved chunks.
\<close>

theorem query_document_generation_failure:
  assumes "index s doc_id = Some info"
    and "search_documents E question 3 (Some doc_id) s = Inr out"
    and "so_results out \<noteq> []"
    and "generate_content E
           (query_prompt (d_title info) (py_join [nl, nl] (map r_text (so_results out))) question)
         = Inl err"
  shows "query_document E doc_id question s =
           Inr (Query_Ok doc_id (d_title info) question
                  (fallback_answer err (py_join [nl, nl] (map r_text (so_results out))))
                  (so_results out))"
  using assms by (simp add: query_document_def)

theorem query_document_generation_failure_witness:
  "index ex_state ''d1'' = Some (ex_info ''d1'')
   \<and> search_documents ex_env ''north'' 3 (Some ''d1'') ex_state = Inr ex_out1
   \<and> so_results ex_out1 \<noteq> []
   \<and> query_document ex_env ''d1'' ''north'' ex_state =
       Inr (Query_Ok ''d1'' ''T'' ''north''
             (''Error generating answer: quota exceeded'' @ [nl, nl] @ ''Relevant context found:'' @ [nl] @ ''north...'')
             (so_results ex_out1))"
proof -
  have ne: "so_results ex_out1 \<noteq> []" by (simp add: ex_out1_def)
  have "query_document ex_env ''d1'' ''north'' ex_state =
           Inr (Query_Ok ''d1'' (d_title (ex_info ''d1'')) ''north''
                  (fallback_answer ''quota exceeded'' (py_join [nl, nl] (map r_text (so_results ex_out1))))
                  (so_results ex_out1))"
    by (rule query_document_generation_failure [OF ex_index_d1 ex_search_d1 ne ex_generate])
  then show ?thesis using ne ex_index_d1 ex_search_d1
    by (simp add: ex_info_def fallback_answer_def ex_out1_def py_slice_to_def)
qed

text \<open>
  C2 as stated fails. On the example store the language model fails on every prompt, the
  search inside document \<open>d1\<close> finds one chunk, and the result of \<open>query_document\<close>
  has success = true (with the chunk as its source), not success = false.
\<close>

theorem query_document_generation_failure_reports_success:
  "generate_content ex_env (query_prompt ''T'' ''north'' ''north'') = Inl ''quota exceeded''
   \<and> (case query_document ex_env ''d1'' ''north'' ex_state of
        Inr r \<Rightarrow> query_success r \<and> qr_sources r = so_results ex_out1
      | Inl e \<Rightarrow> False)"
  unfolding query_document_def ex_index_d1 ex_search_d1
  by (simp add: ex_generate ex_out1_def)

text \<open>
  C6. For a document id that is not in the registry index, \<open>query_document\<close> returns a
  result (not an exception) with success = false whose message names the id. For a
  registered id whose document-scoped search returns no chunk, it returns success = false
  with the message that no relevant content was found. The two messages differ for every
  id.
\<close>

theorem query_document_failures:
  "(index s doc_id = None \<longrightarrow>
      query_document E doc_id question s = Inr (Query_Failed (''Document '' @ doc_id @ '' not found'')))
   \<and> (index s doc_id \<noteq> None \<and> search_documents E question 3 (Some doc_id) s = Inr out
        \<and> so_results out = [] \<longrightarrow>
      query_document E doc_id question s = Inr (Query_Failed ''No relevant content found in document''))
   \<and> \<not> query_success (Query_Failed (''Document '' @ doc_id @ '' not found''))
   \<and> \<not> query_success (Query_Failed ''No relevant content found in document'')
   \<and> ''Document '' @ doc_id @ '' not found'' \<noteq> ''No relevant content found in document''"
  by (auto simp: query_document_def)

theorem query_document_failures_witness:
  "index ex_state ''nonexistent'' = None
   \<and> query_document ex_env ''nonexistent'' ''anything'' ex_state
       = Inr (Query_Failed ''Document nonexistent not found'')
   \<and> index ex_state3 ''d3'' \<noteq> None
   \<and> search_documents ex_env ''north'' 3 (Some ''d3'') ex_state3 = Inr ex_out3
   \<and> so_results ex_out3 = []
   \<and> query_document ex_env ''d3'' ''north'' ex_state3
       = Inr (Query_Failed ''No relevant content found in document'')"
proof -
  have a: "index ex_state ''nonexistent'' = None" by (simp add: ex_state_def)
  have b: "index ex_state3 ''d3'' \<noteq> None" by (simp add: ex_state3_def)
  have c: "so_results ex_out3 = []" by (simp add: ex_out3_def)
  from query_document_failures [of ex_state "''nonexistent''" ex_env "''anything''"] a
  have 1: "query_document ex_env ''nonexistent'' ''anything'' ex_state
       = Inr (Query_Failed ''Document nonexistent not found'')" by simp
  from query_document_failures [of ex_state3 "''d3''" ex_env "''north''" ex_out3] b c ex_search_d3
  have 2: "query_document ex_env ''d3'' ''north'' ex_state3
       = Inr (Query_Failed ''No relevant content found in document'')" by blast
  from a b c 1 2 ex_search_d3 show ?thesis by blast
qed

subsection \<open>Deleting a document\<close>

lemma coll_delete_matching:
  "records (coll_delete (coll_get_ids w coll) coll) = filter (\<lambda>e. \<not> where_match w e) (records coll)"
proof -
  have inj: "inj_on e_id (set (records coll))"
    using distinct_records [of coll] by (simp add: distinct_map)
  have "e_id e \<in> set (coll_get_ids w coll) \<longleftrightarrow> where_match w e" if "e \<in> set (records coll)" for e
  proof
    assume "e_id e \<in> set (coll_get_ids w coll)"
    then obtain e' where e': "e' \<in> set (records coll)" "where_match w e'" "e_id e' = e_id e"
      by (auto simp: coll_get_ids_def)
    with inj that have "e' = e" by (auto dest: inj_onD)
    with e' show "where_match w e" by simp
  next
    assume "where_match w e"
    with that show "e_id e \<in> set (coll_get_ids w coll)" by (auto simp: coll_get_ids_def)
  qed
  then show ?thesis unfolding coll_delete.rep_eq by (auto intro: filter_cong)
qed

lemma search_no_match:
  assumes "filter (where_match (where_filter doc_filter)) (records (collection s)) = []" and "0 < top_k"
  shows "search_documents E query top_k doc_filter s =
     Inr \<lparr>so_success = True, so_query = query, so_results_count = 0,
          so_total_searched = coll_count (collection s), so_results = []\<rparr>"
  using assms by (simp add: search_documents_positive raw_hits_def nearest_def)

lemma delete_document_collection:
  "index s doc_id = Some info \<Longrightarrow>
   records (collection (snd (delete_document doc_id s)))
     = filter (\<lambda>e. \<not> where_match (Some (''doc_id'', MStr doc_id)) e) (records (collection s))"
proof -
  assume a: "index s doc_id = Some info"
  let ?w = "Some (''doc_id'', MStr doc_id)"
  show ?thesis
  proof (cases "coll_get_ids ?w (collection s) = []")
    case True
    then have "filter (where_match ?w) (records (collection s)) = []"
      by (simp add: coll_get_ids_def)
    then have "filter (\<lambda>e. \<not> where_match ?w e) (records (collection s)) = records (collection s)"
      by (simp add: filter_empty_conv filter_id_conv)
    with a True show ?thesis by (simp add: delete_document_def Let_def)
  next
    case False
    with a show ?thesis by (simp add: delete_document_def Let_def coll_delete_matching)
  qed
qed

text \<open>
  C7, as the code has it. For a registered document id, \<open>delete_document\<close> succeeds and
  removes the registry entry and the stored body. \<open>chunks_deleted\<close> is the number of
  records whose metadata carries this id as \<open>doc_id\<close>, and the count of the vector index
  goes down by exactly \<open>chunks_deleted\<close>. When the records that carry the id in their
  metadata are exactly the chunks of the document, \<open>chunks_deleted\<close> is the number of
  chunks the index held for the document, and none of them is left. When the id is not
  the empty string, every later search with this id as \<open>doc_filter\<close> and a positive
  \<open>top_k\<close> returns no result.
\<close>

theorem delete_document_cascade:
  assumes "index s doc_id = Some info"
  shows "delete_success (fst (delete_document doc_id s))
    \<and> dr_doc_id (fst (delete_document doc_id s)) = doc_id
    \<and> index (snd (delete_document doc_id s)) doc_id = None
    \<and> files (snd (delete_document doc_id s)) doc_id = None
    \<and> dr_chunks_deleted (fst (delete_document doc_id s))
        = length (filter (where_match (Some (''doc_id'', MStr doc_id))) (records (collection s)))
    \<and> coll_count (collection (snd (delete_document doc_id s)))
         + dr_chunks_deleted (fst (delete_document doc_id s))
       = coll_count (collection s)
    \<and> ((\<forall>e \<in> set (records (collection s)).
           where_match (Some (''doc_id'', MStr doc_id)) e \<longleftrightarrow> chunk_of doc_id e) \<longrightarrow>
         dr_chunks_deleted (fst (delete_document doc_id s))
           = length (filter (chunk_of doc_id) (records (collection s)))
         \<and> (\<forall>e \<in> set (records (collection (snd (delete_document doc_id s)))). \<not> chunk_of doc_id e))
    \<and> (doc_id \<noteq> [] \<longrightarrow>
         (\<forall>E query top_k. 0 < top_k \<longrightarrow>
            search_documents E query top_k (Some doc_id) (snd (delete_document doc_id s)) =
              Inr \<lparr>so_success = True, so_query = query, so_results_count = 0,
                   so_total_searched = coll_count (collection (snd (delete_document doc_id s))),
                   so_results = []\<rparr>))"
proof -
  let ?w = "Some (''doc_id'', MStr doc_id)"
  let ?r = "fst (delete_document doc_id s)"
  let ?s' = "snd (delete_document doc_id s)"
  note coll = delete_document_collection [OF assms]
  have n: "dr_chunks_deleted ?r = length (filter (where_match ?w) (records (collection s)))"
    using assms by (auto simp: delete_document_def Let_def coll_get_ids_def)
  have cnt: "coll_count (collection ?s') + dr_chunks_deleted ?r = coll_count (collection s)"
    unfolding coll_count_def coll n
    using sum_length_filter_compl [of "where_match ?w" "records (collection s)"] by simp
  have own: "dr_chunks_deleted ?r = length (filter (chunk_of doc_id) (records (collection s)))
         \<and> (\<forall>e \<in> set (records (collection ?s')). \<not> chunk_of doc_id e)"
    if h: "\<forall>e \<in> set (records (collection s)). where_match ?w e \<longleftrightarrow> chunk_of doc_id e"
  proof -
    from h have "filter (where_match ?w) (records (collection s)) = filter (chunk_of doc_id) (records (collection s))"
      by (auto intro: filter_cong)
    moreover from h have "\<forall>e \<in> set (records (collection ?s')). \<not> chunk_of doc_id e"
      unfolding coll by auto
    ultimately show ?thesis using n by simp
  qed
  have srch: "search_documents E query top_k (Some doc_id) ?s' =
              Inr \<lparr>so_success = True, so_query = query, so_results_count = 0,
                   so_total_searched = coll_count (collection ?s'), so_results = []\<rparr>"
    if "doc_id \<noteq> []" "0 < top_k" for E query top_k
  proof (rule search_no_match)
    from that have "where_filter (Some doc_id) = ?w" by (simp add: where_filter_def)
    then show "filter (where_match (where_filter (Some doc_id))) (records (collection ?s')) = []"
      unfolding coll by (simp add: filter_empty_conv)
  qed (rule that)
  have rest: "delete_success ?r" "dr_doc_id ?r = doc_id" "index ?s' doc_id = None" "files ?s' doc_id = None"
    using assms by (simp_all add: delete_document_def Let_def)
  from rest n cnt own srch show ?thesis by blast
qed

subsection \<open>Chunk identifiers\<close>

lemma str_nat_0: "str_nat 0 = ''0''"
  by (simp add: str_nat.simps [of 0] digit_char_def)

lemma str_nat_not_Nil: "str_nat n \<noteq> []"
  by (subst str_nat.simps) simp

lemma digit_char_inj: "a < 10 \<Longrightarrow> b < 10 \<Longrightarrow> digit_char a = digit_char b \<Longrightarrow> a = b"
proof -
  assume a: "a < 10" and b: "b < 10" and eq: "digit_char a = digit_char b"
  have d: "distinct ''0123456789''" by simp
  from a b have "a < length ''0123456789''" "b < length ''0123456789''" by simp_all
  with d eq show "a = b" unfolding digit_char_def by (simp only: nth_eq_iff_index_eq)
qed

lemma str_nat_inj: "str_nat m = str_nat n \<Longrightarrow> m = n"
proof (induction m arbitrary: n rule: str_nat.induct)
  case (1 m)
  show ?case
  proof (cases "m < 10")
    case small: True
    show ?thesis
    proof (cases "n < 10")
      case True
      with small "1.prems" have "digit_char m = digit_char n"
        by (simp add: str_nat.simps [of m] str_nat.simps [of n])
      with small True show ?thesis by (rule digit_char_inj)
    next
      case False
      with small "1.prems" have "[digit_char m] = str_nat (n div 10) @ [digit_char (n mod 10)]"
        by (simp add: str_nat.simps [of m] str_nat.simps [of n])
      then have "str_nat (n div 10) = []" by simp
      then show ?thesis by (simp add: str_nat_not_Nil)
    qed
  next
    case big: False
    show ?thesis
    proof (cases "n < 10")
      case True
      with big "1.prems" have "str_nat (m div 10) @ [digit_char (m mod 10)] = [digit_char n]"
        by (simp add: str_nat.simps [of m] str_nat.simps [of n])
      then have "str_nat (m div 10) = []" by simp
      then show ?thesis by (simp add: str_nat_not_Nil)
    next
      case False
      with big "1.prems" have "str_nat (m div 10) @ [digit_char (m mod 10)]
            = str_nat (n div 10) @ [digit_char (n mod 10)]"
        by (simp add: str_nat.simps [of m] str_nat.simps [of n])
      then have s: "str_nat (m div 10) = str_nat (n div 10)"
        and d: "digit_char (m mod 10) = digit_char (n mod 10)" by simp_all
      from "1.IH" [OF big s] have q: "m div 10 = n div 10" .
      have "m mod 10 = n mod 10" by (rule digit_char_inj [OF _ _ d]) simp_all
      with q have "m div 10 * 10 + m mod 10 = n div 10 * 10 + n mod 10" by simp
      then show ?thesis by (simp only: div_mult_mod_eq)
    qed
  qed
qed

lemma chunk_step_ids:
  assumes "chunk_step cs ov (chunks, cur, idx) para = (chunks', cur', idx')"
    and "idx = length chunks" and "map c_chunk_id chunks = [0 ..< length chunks]"
  shows "idx' = length chunks' \<and> map c_chunk_id chunks' = [0 ..< length chunks']"
proof (cases "int (length cur) + int (length para) \<le> cs")
  case True
  with assms(1) have "chunks' = chunks" "idx' = idx" by simp_all
  with assms(2,3) show ?thesis by simp
next
  case False
  show ?thesis
  proof (cases "cur = []")
    case True
    with False assms(1) have "chunks' = chunks" "idx' = idx" by simp_all
    with assms(2,3) show ?thesis by simp
  next
    case ne: False
    with False assms(1) have "chunks' = chunks @ [emit_chunk idx cur]" "idx' = idx + 1" by simp_all
    with assms(2,3) show ?thesis by (simp add: emit_chunk_def)
  qed
qed

lemma chunk_fold_ids:
  assumes "foldl (chunk_step cs ov) (chunks, cur, idx) paras = (chunks', cur', idx')"
    and "idx = length chunks" and "map c_chunk_id chunks = [0 ..< length chunks]"
  shows "idx' = length chunks' \<and> map c_chunk_id chunks' = [0 ..< length chunks']"
  using assms
proof (induction paras arbitrary: chunks cur idx)
  case Nil
  then show ?case by auto
next
  case (Cons p ps)
  obtain c1 u1 i1 where st: "chunk_step cs ov (chunks, cur, idx) p = (c1, u1, i1)"
    by (cases "chunk_step cs ov (chunks, cur, idx) p") auto
  from chunk_step_ids [OF st Cons.prems(2,3)]
  have "i1 = length c1" "map c_chunk_id c1 = [0 ..< length c1]" by simp_all
  moreover from Cons.prems(1) st have "foldl (chunk_step cs ov) (c1, u1, i1) ps = (chunks', cur', idx')"
    by simp
  ultimately show ?case by (rule Cons.IH [rotated 1])
qed

lemma rag_chunk_text_ids:
  "map c_chunk_id (rag_chunk_text text cs ov) = [0 ..< length (rag_chunk_text text cs ov)]"
proof -
  obtain chunks cur idx where f: "foldl (chunk_step cs ov) ([], [], 0) (split_nlnl text) = (chunks, cur, idx)"
    by (cases "foldl (chunk_step cs ov) ([], [], 0) (split_nlnl text)") auto
  from chunk_fold_ids [OF f] have "idx = length chunks" "map c_chunk_id chunks = [0 ..< length chunks]"
    by simp_all
  then show ?thesis by (simp add: rag_chunk_text_def f emit_chunk_def)
qed

lemma chunk_entry_ids_distinct:
  "distinct (map e_id (map (chunk_entry E d t m) (rag_chunk_text text cs ov)))"
proof -
  have "map e_id (map (chunk_entry E d t m) (rag_chunk_text text cs ov))
        = map (\<lambda>i. d @ ''_'' @ str_nat i) (map c_chunk_id (rag_chunk_text text cs ov))"
    by (simp add: chunk_entry_def)
  moreover have "inj (\<lambda>i. d @ ''_'' @ str_nat i)"
    by (rule injI) (simp add: str_nat_inj)
  then have "inj_on (\<lambda>i. d @ ''_'' @ str_nat i) (set [0 ..< length (rag_chunk_text text cs ov)])"
    by (rule inj_on_subset) simp
  then have "distinct (map (\<lambda>i. d @ ''_'' @ str_nat i) [0 ..< length (rag_chunk_text text cs ov)])"
    by (simp only: distinct_map distinct_upt simp_thms)
  ultimately show ?thesis by (simp only: rag_chunk_text_ids)
qed

lemma fold_add_record:
  "distinct (map e_id new) \<Longrightarrow>
   fold add_record new old = old @ filter (\<lambda>e. e_id e \<notin> set (map e_id old)) new"
proof (induction new arbitrary: old)
  case Nil
  show ?case by simp
next
  case (Cons e new)
  then have IH: "\<And>old. fold add_record new old = old @ filter (\<lambda>x. e_id x \<notin> e_id ` set old) new"
    and notin: "e_id e \<notin> e_id ` set new" by simp_all
  show ?case
  proof (cases "e_id e \<in> set (map e_id old)")
    case True
    then have "add_record e old = old" by (simp add: add_record_def)
    with True show ?thesis by (simp add: IH)
  next
    case False
    then have step: "add_record e old = old @ [e]" by (simp add: add_record_def)
    have "filter (\<lambda>x. e_id x \<notin> e_id ` set (old @ [e])) new
            = filter (\<lambda>x. e_id x \<notin> e_id ` set old) new"
    proof (rule filter_cong [OF refl])
      fix x assume "x \<in> set new"
      with notin have "e_id x \<noteq> e_id e" by (metis imageI)
      then show "(e_id x \<notin> e_id ` set (old @ [e])) = (e_id x \<notin> e_id ` set old)" by simp
    qed
    with False step show ?thesis by (simp add: IH)
  qed
qed

subsection \<open>Chunk metadata\<close>

lemma chunk_metadata_override:
  "chunk_metadata doc_id title (Some m) c k = (case m k of Some v \<Rightarrow> Some v | None \<Rightarrow> provenance doc_id title c k)"
  by (simp add: chunk_metadata_def map_add_def)

lemma ex_chunks_north:
  "rag_chunk_text ''north'' 500 100 = [\<lparr>c_chunk_id = 0, c_text = ''north'', c_length = 7\<rparr>]"
  by (simp add: rag_chunk_text_def split_nlnl_def emit_chunk_def py_strip_def py_isspace_def nl_def)

lemma ex_chunks_south:
  "rag_chunk_text ''south'' 500 100 = [\<lparr>c_chunk_id = 0, c_text = ''south'', c_length = 7\<rparr>]"
  by (simp add: rag_chunk_text_def split_nlnl_def emit_chunk_def py_strip_def py_isspace_def nl_def)

lemma ex_entry9_id: "e_id ex_entry9 = ''d9_0''"
  by (simp add: ex_entry9_def chunk_entry_def str_nat_0)

lemma ex_records9: "records (index_of [ex_entry9]) = [ex_entry9]"
  by (simp add: records_index_of add_record_def)

lemma ex_entry9_doc_id: "e_metadata ex_entry9 ''doc_id'' = Some (MStr ''other'')"
  by (simp add: ex_entry9_def chunk_entry_def chunk_metadata_def provenance_def ex_meta_def)

lemma ex_entry9_title: "e_metadata ex_entry9 ''title'' = Some (MStr ''T'')"
  by (simp add: ex_entry9_def chunk_entry_def chunk_metadata_def provenance_def ex_meta_def)

lemma ex_add9:
  "add_document ex_env ''north'' ''T'' (Some ex_meta) (Some ''d9'') ''2024-01-01T00:00:00'' empty_state
     = (Add_Ok ''d9'' ''T'' 1 (''Document '' @ [CHR 0x27] @ ''T'' @ [CHR 0x27] @ '' added successfully''),
        ex_state9)"
  unfolding add_document_def ex_chunks_north
  by (simp add: Let_def empty_state_def ex_state9_def ex_entry9_def index_of_def py_split_def py_isspace_def
        eval_nat_numeral)

lemma ex_delete9:
  "delete_document ''d9'' ex_state9
     = (Delete_Ok ''d9'' ''T'' 0 (''Document '' @ [CHR 0x27] @ ''T'' @ [CHR 0x27] @ '' deleted successfully''),
        ex_state9_deleted)"
  by (simp add: delete_document_def ex_state9_def ex_state9_deleted_def coll_get_ids_def ex_records9
        where_match_def ex_entry9_doc_id)

lemma chunk_of_entry9: "chunk_of ''d9'' ex_entry9"
  unfolding chunk_of_def ex_entry9_id by (rule exI [of _ 0]) (simp add: str_nat_0)

text \<open>
  C10, as the code has it. After a successful \<open>add_document\<close> the vector index holds its
  former records followed by the records of those chunks of the document whose id is new
  to the index; a chunk whose id the index already holds keeps its old record. The
  metadata of each chunk record the call builds is the mapping of \<open>doc_id\<close>, \<open>title\<close>,
  \<open>chunk_index\<close> and \<open>length\<close> merged with the caller's metadata, and every entry of the
  caller's metadata is in it with the caller's value. In particular a caller's \<open>doc_id\<close>
  that differs from the document's id replaces it, and the record then does not match the
  filter \<open>{"doc_id": id}\<close> that the document-scoped search and \<open>delete_document\<close> use.
  Every chunk whose id is new to the index is stored with that metadata.
\<close>

theorem add_document_chunk_metadata:
  assumes "add_document E content title metadata doc_id_opt now s = (r, s')"
    and "add_success r"
  shows "records (collection s') =
           records (collection s) @
           filter (\<lambda>e. e_id e \<notin> set (map e_id (records (collection s))))
             (map (chunk_entry E (ar_doc_id r) title metadata) (rag_chunk_text content 500 100))
    \<and> (\<forall>c \<in> set (rag_chunk_text content 500 100).
          e_metadata (chunk_entry E (ar_doc_id r) title metadata c)
            = [''doc_id'' \<mapsto> MStr (ar_doc_id r), ''title'' \<mapsto> MStr title,
               ''chunk_index'' \<mapsto> MInt (int (c_chunk_id c)), ''length'' \<mapsto> MInt (int (c_length c))]
              ++ (case metadata of None \<Rightarrow> Map.empty | Some m \<Rightarrow> m)
        \<and> (\<forall>m k v. metadata = Some m \<and> m k = Some v \<longrightarrow>
              e_metadata (chunk_entry E (ar_doc_id r) title metadata c) k = Some v)
        \<and> (\<forall>m v. metadata = Some m \<and> m ''doc_id'' = Some v \<and> v \<noteq> MStr (ar_doc_id r) \<longrightarrow>
              \<not> where_match (Some (''doc_id'', MStr (ar_doc_id r)))
                    (chunk_entry E (ar_doc_id r) title metadata c))
        \<and> (e_id (chunk_entry E (ar_doc_id r) title metadata c) \<notin> set (map e_id (records (collection s)))
             \<longrightarrow> chunk_entry E (ar_doc_id r) title metadata c \<in> set (records (collection s'))))"
proof -
  let ?d = "case doc_id_opt of None \<Rightarrow> generate_doc_id E content | Some d \<Rightarrow> d"
  let ?new = "map (chunk_entry E (ar_doc_id r) title metadata) (rag_chunk_text content 500 100)"
  from assms have fresh: "index s ?d = None"
    by (auto simp: add_document_def Let_def split: if_splits)
  with assms(1) have r: "ar_doc_id r = ?d"
    and c: "collection s' = coll_add (map (chunk_entry E ?d title metadata) (rag_chunk_text content 500 100)) (collection s)"
    by (auto simp: add_document_def Let_def)
  have "records (collection s') = fold add_record ?new (records (collection s))"
    unfolding c r by (rule coll_add.rep_eq)
  also have "\<dots> = records (collection s) @
           filter (\<lambda>e. e_id e \<notin> set (map e_id (records (collection s)))) ?new"
    by (rule fold_add_record) (rule chunk_entry_ids_distinct)
  finally have 1: "records (collection s') =
           records (collection s) @
           filter (\<lambda>e. e_id e \<notin> set (map e_id (records (collection s)))) ?new" .
  have 2: "e_metadata (chunk_entry E d title metadata c)
            = [''doc_id'' \<mapsto> MStr d, ''title'' \<mapsto> MStr title,
               ''chunk_index'' \<mapsto> MInt (int (c_chunk_id c)), ''length'' \<mapsto> MInt (int (c_length c))]
              ++ (case metadata of None \<Rightarrow> Map.empty | Some m \<Rightarrow> m)" for d c
    by (simp add: chunk_entry_def chunk_metadata_def provenance_def)
  have 3: "e_metadata (chunk_entry E d title metadata c) k = Some v"
    if "metadata = Some m" "m k = Some v" for d c m k v
    using that by (simp add: chunk_entry_def chunk_metadata_override)
  have 4: "\<not> where_match (Some (''doc_id'', MStr d)) (chunk_entry E d title metadata c)"
    if "metadata = Some m" "m ''doc_id'' = Some v" "v \<noteq> MStr d" for d c m v
    using 3 [OF that(1,2)] that(3) by (simp add: where_match_def)
  have 5: "chunk_entry E (ar_doc_id r) title metadata c \<in> set (records (collection s'))"
    if "c \<in> set (rag_chunk_text content 500 100)"
      and "e_id (chunk_entry E (ar_doc_id r) title metadata c) \<notin> set (map e_id (records (collection s)))"
    for c
    unfolding 1 using that by simp
  from 1 2 3 4 5 show ?thesis by blast
qed

theorem add_document_chunk_metadata_witness:
  "add_document ex_env ''north'' ''T'' (Some ex_meta) (Some ''d9'') ''2024-01-01T00:00:00'' empty_state
     = (Add_Ok ''d9'' ''T'' 1 (''Document '' @ [CHR 0x27] @ ''T'' @ [CHR 0x27] @ '' added successfully''),
        ex_state9)
   \<and> add_success (Add_Ok ''d9'' ''T'' 1 (''Document '' @ [CHR 0x27] @ ''T'' @ [CHR 0x27] @ '' added successfully''))
   \<and> ex_meta ''doc_id'' = Some (MStr ''other'') \<and> MStr ''other'' \<noteq> MStr ''d9''
   \<and> ''d9_0'' \<notin> set (map e_id (records (collection empty_state)))
   \<and> records (collection ex_state9)
       = [chunk_entry ex_env ''d9'' ''T'' (Some ex_meta) \<lparr>c_chunk_id = 0, c_text = ''north'', c_length = 7\<rparr>]
   \<and> e_metadata (chunk_entry ex_env ''d9'' ''T'' (Some ex_meta) \<lparr>c_chunk_id = 0, c_text = ''north'', c_length = 7\<rparr>)
        ''doc_id'' = Some (MStr ''other'')
   \<and> \<not> where_match (Some (''doc_id'', MStr ''d9''))
         (chunk_entry ex_env ''d9'' ''T'' (Some ex_meta) \<lparr>c_chunk_id = 0, c_text = ''north'', c_length = 7\<rparr>)"
proof -
  let ?r = "Add_Ok ''d9'' ''T'' 1 (''Document '' @ [CHR 0x27] @ ''T'' @ [CHR 0x27] @ '' added successfully'')"
  let ?c = "\<lparr>c_chunk_id = 0, c_text = ''north'', c_length = 7\<rparr>"
  have ok: "add_success ?r" by simp
  have m: "ex_meta ''doc_id'' = Some (MStr ''other'')" "MStr ''other'' \<noteq> MStr ''d9''"
    by (simp_all add: ex_meta_def)
  have f: "''d9_0'' \<notin> set (map e_id (records (collection empty_state)))"
    by (simp add: empty_state_def)
  have c: "?c \<in> set (rag_chunk_text ''north'' 500 100)" by (simp add: ex_chunks_north)
  have id: "ar_doc_id ?r = ''d9''" by simp
  note inst = add_document_chunk_metadata [OF ex_add9 ok, unfolded id]
  from inst have "records (collection ex_state9) =
           records (collection empty_state) @
           filter (\<lambda>e. e_id e \<notin> set (map e_id (records (collection empty_state))))
             (map (chunk_entry ex_env ''d9'' ''T'' (Some ex_meta)) (rag_chunk_text ''north'' 500 100))"
    by blast
  then have 1: "records (collection ex_state9) = [chunk_entry ex_env ''d9'' ''T'' (Some ex_meta) ?c]"
    unfolding ex_chunks_north by (simp add: empty_state_def)
  from inst c m have 2: "e_metadata (chunk_entry ex_env ''d9'' ''T'' (Some ex_meta) ?c) ''doc_id''
          = Some (MStr ''other'')"
    by blast
  from inst c m have 3: "\<not> where_match (Some (''doc_id'', MStr ''d9''))
         (chunk_entry ex_env ''d9'' ''T'' (Some ex_meta) ?c)"
    by blast
  from ok m f 1 2 3 ex_add9 show ?thesis by blast
qed

lemma ex_readd9:
  "fst (add_document ex_env ''south'' ''T2'' None (Some ''d9'') ''2024-03-03T00:00:00'' ex_state9_deleted)
     = Add_Ok ''d9'' ''T2'' 1 (''Document '' @ [CHR 0x27] @ ''T2'' @ [CHR 0x27] @ '' added successfully'')"
  "records (collection (snd (add_document ex_env ''south'' ''T2'' None (Some ''d9'') ''2024-03-03T00:00:00''
      ex_state9_deleted))) = [ex_entry9]"
  unfolding add_document_def ex_chunks_south
  by (simp_all add: Let_def ex_state9_deleted_def coll_add.rep_eq ex_records9 add_record_def chunk_entry_def
        str_nat_0 ex_entry9_id)

text \<open>
  C10 as stated fails when a chunk id is already in the index. \<open>ex_state9_deleted\<close> is
  reached from the empty store by adding document \<open>d9\<close> with a \<open>doc_id\<close> of the caller's
  in its metadata and deleting it again, which leaves the chunk \<open>d9_0\<close> behind. Adding
  \<open>d9\<close> again, with the text \<open>south\<close>, the title \<open>T2\<close> and no metadata, succeeds and
  reports one chunk created, but the record stored under \<open>d9_0\<close> is still the old one:
  its text is \<open>north\<close>, its \<open>doc_id\<close> is the former caller's value and its title is
  \<open>T\<close>, not the merged mapping of this call.
\<close>

theorem readd_keeps_old_chunk_metadata:
  "add_success (fst (add_document ex_env ''south'' ''T2'' None (Some ''d9'') ''2024-03-03T00:00:00'' ex_state9_deleted))
   \<and> ar_chunks_created (fst (add_document ex_env ''south'' ''T2'' None (Some ''d9'') ''2024-03-03T00:00:00''
        ex_state9_deleted)) = 1
   \<and> map e_id (records (collection (snd (add_document ex_env ''south'' ''T2'' None (Some ''d9'')
        ''2024-03-03T00:00:00'' ex_state9_deleted)))) = [''d9_0'']
   \<and> map e_document (records (collection (snd (add_document ex_env ''south'' ''T2'' None (Some ''d9'')
        ''2024-03-03T00:00:00'' ex_state9_deleted)))) = [''north'']
   \<and> map (\<lambda>e. e_metadata e ''doc_id'') (records (collection (snd (add_document ex_env ''south'' ''T2'' None
        (Some ''d9'') ''2024-03-03T00:00:00'' ex_state9_deleted)))) = [Some (MStr ''other'')]
   \<and> map (\<lambda>e. e_metadata e ''title'') (records (collection (snd (add_document ex_env ''south'' ''T2'' None
        (Some ''d9'') ''2024-03-03T00:00:00'' ex_state9_deleted)))) = [Some (MStr ''T'')]"
  unfolding ex_readd9
  by (simp add: ex_entry9_id ex_entry9_doc_id ex_entry9_title) (simp add: ex_entry9_def chunk_entry_def)

subsection \<open>Deletion on the example stores\<close>

lemma ex_records7: "records (collection ex_state7) = [ex_entry [] ''north'', ex_entry ''d2'' ''south'']"
  by (simp add: ex_state7_def records_index_of add_record_def ex_entry_def)

lemma ex_index7: "index ex_state7 [] = Some (ex_info [])"
  by (simp add: ex_state7_def)

lemma ex_deleted7:
  "records (collection (snd (delete_document [] ex_state7))) = [ex_entry ''d2'' ''south'']"
  unfolding delete_document_collection [OF ex_index7] ex_records7
  by (simp add: where_match_def ex_entry_def)

lemma ex_deleted1:
  "records (collection (snd (delete_document ''d1'' ex_state))) = [ex_entry ''d2'' ''south'']"
  unfolding delete_document_collection [OF ex_index_d1] ex_records
  by (simp add: where_match_def ex_entry_def)

lemma ex_search_after_delete7:
  "search_documents ex_env ''north'' 5 (Some []) (snd (delete_document [] ex_state7)) =
     Inr \<lparr>so_success = True, so_query = ''north'', so_results_count = 1, so_total_searched = 1,
          so_results = [\<lparr>r_chunk_id = ''d2_0'', r_doc_id = MStr ''d2'', r_text = ''south'',
                          r_similarity = -3, r_doc_title = MStr ''T''\<rparr>]\<rparr>"
  unfolding search_documents_positive [of 5, simplified] raw_hits_def nearest_def coll_count_def ex_deleted7
  by (simp add: where_filter_def where_match_def to_hit_def ex_entry_def ex_env_def ex_encode_def sq_l2_def)

lemma str_int_0: "str_int 0 = ''0''"
  by (simp add: str_int_def str_nat_0)

text \<open>
  C7 as stated fails in three ways. (1) \<open>ex_state9\<close> is the empty store after one
  \<open>add_document\<close> whose metadata has a \<open>doc_id\<close> of its own: the chunk \<open>d9_0\<close> of
  document \<open>d9\<close> carries the caller's \<open>doc_id\<close>, so \<open>delete_document\<close> finds no record
  under \<open>{"doc_id": "d9"}\<close>, reports \<open>chunks_deleted\<close> = 0 and leaves the chunk in the
  index. (2) For the document registered under the empty string, the later search with
  that id as \<open>doc_filter\<close> runs without a filter (\<open>if doc_filter\<close> is false) and returns
  the chunk of another document. (3) With \<open>top_k\<close> = 0 the search after the deletion
  raises a \<open>TypeError\<close> instead of returning no result.
\<close>

theorem delete_document_cascade_failures:
  "index ex_state9 ''d9'' \<noteq> None
   \<and> records (collection ex_state9) = [ex_entry9] \<and> chunk_of ''d9'' ex_entry9
   \<and> dr_chunks_deleted (fst (delete_document ''d9'' ex_state9)) = 0
   \<and> records (collection (snd (delete_document ''d9'' ex_state9))) = [ex_entry9]
   \<and> index ex_state7 [] \<noteq> None
   \<and> (case search_documents ex_env ''north'' 5 (Some []) (snd (delete_document [] ex_state7)) of
        Inr out \<Rightarrow> so_results_count out = 1 \<and> map r_chunk_id (so_results out) = [''d2_0'']
      | Inl err \<Rightarrow> False)
   \<and> index ex_state ''d1'' \<noteq> None
   \<and> search_documents ex_env ''north'' 0 (Some ''d1'') (snd (delete_document ''d1'' ex_state))
       = Inl (TypeError ''Number of requested results 0, cannot be negative, or zero.'')"
proof -
  have a: "index ex_state9 ''d9'' \<noteq> None" by (simp add: ex_state9_def)
  have b: "records (collection ex_state9) = [ex_entry9]"
    by (simp add: ex_state9_def ex_records9)
  have c: "dr_chunks_deleted (fst (delete_document ''d9'' ex_state9)) = 0"
    "records (collection (snd (delete_document ''d9'' ex_state9))) = [ex_entry9]"
    unfolding ex_delete9 by (simp_all add: ex_state9_deleted_def ex_records9)
  have d: "search_documents ex_env ''north'' 0 (Some ''d1'') (snd (delete_document ''d1'' ex_state))
       = Inl (TypeError ''Number of requested results 0, cannot be negative, or zero.'')"
    by (simp add: search_documents_def coll_query_def str_int_0)
  from a b c d chunk_of_entry9 ex_index7 ex_index_d1 show ?thesis
    by (simp add: ex_search_after_delete7)
qed

lemma chunk_of_d1: "chunk_of ''d1'' (ex_entry ''d1'' ''north'')"
  unfolding chunk_of_def by (rule exI [of _ 0]) (simp add: str_nat_0 ex_entry_def)

lemma not_chunk_of_d1: "\<not> chunk_of ''d1'' (ex_entry ''d2'' ''south'')"
  by (simp add: chunk_of_def ex_entry_def)

theorem delete_document_cascade_witness:
  "index ex_state ''d1'' = Some (ex_info ''d1'')
   \<and> records (collection ex_state) = [ex_entry ''d1'' ''north'', ex_entry ''d2'' ''south'']
   \<and> where_match (Some (''doc_id'', MStr ''d1'')) (ex_entry ''d1'' ''north'')
   \<and> chunk_of ''d1'' (ex_entry ''d1'' ''north'')
   \<and> \<not> where_match (Some (''doc_id'', MStr ''d1'')) (ex_entry ''d2'' ''south'')
   \<and> \<not> chunk_of ''d1'' (ex_entry ''d2'' ''south'')
   \<and> ''d1'' \<noteq> [] \<and> (0::int) < 5
   \<and> length (filter (chunk_of ''d1'') (records (collection ex_state))) = 1
   \<and> dr_chunks_deleted (fst (delete_document ''d1'' ex_state)) = 1
   \<and> coll_count (collection (snd (delete_document ''d1'' ex_state))) + 1 = coll_count (collection ex_state)
   \<and> search_documents ex_env ''north'' 5 (Some ''d1'') (snd (delete_document ''d1'' ex_state)) =
              Inr \<lparr>so_success = True, so_query = ''north'', so_results_count = 0,
                   so_total_searched = coll_count (collection (snd (delete_document ''d1'' ex_state))),
                   so_results = []\<rparr>"
proof -
  have w: "where_match (Some (''doc_id'', MStr ''d1'')) (ex_entry ''d1'' ''north'')"
    "\<not> where_match (Some (''doc_id'', MStr ''d1'')) (ex_entry ''d2'' ''south'')"
    by (simp_all add: where_match_def ex_entry_def)
  have h: "\<forall>e \<in> set (records (collection ex_state)).
        where_match (Some (''doc_id'', MStr ''d1'')) e \<longleftrightarrow> chunk_of ''d1'' e"
    unfolding ex_records using chunk_of_d1 not_chunk_of_d1 w by simp
  have ne: "''d1'' \<noteq> []" and k: "(0::int) < 5" by simp_all
  have m: "length (filter (chunk_of ''d1'') (records (collection ex_state))) = 1"
    unfolding ex_records using chunk_of_d1 not_chunk_of_d1 by simp
  note inst = delete_document_cascade [OF ex_index_d1]
  from inst h m have 1: "dr_chunks_deleted (fst (delete_document ''d1'' ex_state)) = 1" by simp
  from inst 1 have 2: "coll_count (collection (snd (delete_document ''d1'' ex_state))) + 1
       = coll_count (collection ex_state)" by simp
  from inst ne k have 3: "search_documents ex_env ''north'' 5 (Some ''d1'') (snd (delete_document ''d1'' ex_state)) =
              Inr \<lparr>so_success = True, so_query = ''north'', so_results_count = 0,
                   so_total_searched = coll_count (collection (snd (delete_document ''d1'' ex_state))),
                   so_results = []\<rparr>" by blast
  from ex_index_d1 ex_records w chunk_of_d1 not_chunk_of_d1 ne k m 1 2 3 show ?thesis by blast
qed

subsection \<open>Grouped search\<close>

lemma group_by_doc_snoc: "group_by_doc (rs @ [r]) = group_step (group_by_doc rs) r"
  by (simp add: group_by_doc_def)

lemma group_ok_new:
  assumes "r_doc_id r \<notin> r_doc_id ` set rs"
  shows "group_ok (rs @ [r]) (r_doc_id r)
           \<lparr>g_doc_id = r_doc_id r, g_title = r_doc_title r, g_max_similarity = r_similarity r,
            g_chunk_count = 1, g_top_chunks = [r]\<rparr>"
proof -
  from assms have "\<forall>x \<in> set rs. r_doc_id x \<noteq> r_doc_id r"
    by (metis imageI)
  then have "filter (\<lambda>x. r_doc_id x = r_doc_id r) rs = []"
    by (simp add: filter_empty_conv)
  then show ?thesis by (simp add: group_ok_def)
qed

lemma group_ok_other:
  assumes "group_ok rs k g" and "r_doc_id r \<noteq> k"
  shows "group_ok (rs @ [r]) k g"
  using assms by (auto simp: group_ok_def)

lemma group_ok_grow:
  assumes "group_ok rs (r_doc_id r) g"
  shows "group_ok (rs @ [r]) (r_doc_id r)
           (g\<lparr>g_chunk_count := g_chunk_count g + 1,
              g_top_chunks := g_top_chunks g @ [r],
              g_max_similarity := (if r_similarity r > g_max_similarity g
                                   then r_similarity r else g_max_similarity g)\<rparr>)"
proof -
  let ?S = "r_similarity ` set (g_top_chunks g)"
  from assms have id: "g_doc_id g = r_doc_id r"
    and tc: "g_top_chunks g = filter (\<lambda>x. r_doc_id x = r_doc_id r) rs"
    and tne: "g_top_chunks g \<noteq> []"
    and ti: "g_title g = r_doc_title (hd (g_top_chunks g))"
    and cn: "g_chunk_count g = length (g_top_chunks g)"
    and m: "g_max_similarity g = Max ?S"
    unfolding group_ok_def by blast+
  from tne have ne: "?S \<noteq> {}" and fin: "finite ?S" by simp_all
  have "Max (insert (r_similarity r) ?S) = max (r_similarity r) (Max ?S)"
    using fin ne by (rule Max_insert)
  then have mx: "(if r_similarity r > g_max_similarity g then r_similarity r else g_max_similarity g)
        = Max (r_similarity ` set (g_top_chunks g @ [r]))"
    unfolding m by (simp add: max_def)
  from tne have h: "hd (g_top_chunks g @ [r]) = hd (g_top_chunks g)" by simp
  have f: "filter (\<lambda>x. r_doc_id x = r_doc_id r) (rs @ [r]) = g_top_chunks g @ [r]"
    by (simp add: tc)
  show ?thesis
    unfolding group_ok_def using id ti cn mx h
    by (simp add: tc [symmetric])
qed

lemma group_by_doc_inv:
  "distinct (map fst (group_by_doc rs))
   \<and> fst ` set (group_by_doc rs) = r_doc_id ` set rs
   \<and> (\<forall>k g. map_of (group_by_doc rs) k = Some g \<longrightarrow> group_ok rs k g)"
proof (induction rs rule: rev_induct)
  case Nil
  show ?case by (simp add: group_by_doc_def)
next
  case (snoc r rs)
  let ?G = "group_by_doc rs"
  from snoc have d: "distinct (map fst ?G)" and keys: "fst ` set ?G = r_doc_id ` set rs"
    and ok: "\<And>k g. map_of ?G k = Some g \<Longrightarrow> group_ok rs k g" by blast+
  show ?case
  proof (cases "map_of ?G (r_doc_id r)")
    case None
    let ?g0 = "\<lparr>g_doc_id = r_doc_id r, g_title = r_doc_title r, g_max_similarity = r_similarity r,
                g_chunk_count = 1, g_top_chunks = [r]\<rparr>"
    from None have step: "group_by_doc (rs @ [r]) = ?G @ [(r_doc_id r, ?g0)]"
      by (simp add: group_by_doc_snoc group_step_def)
    from None have notin: "r_doc_id r \<notin> fst ` set ?G" by (simp add: map_of_eq_None_iff)
    have 1: "distinct (map fst (group_by_doc (rs @ [r])))"
      unfolding step using d notin by simp
    have 2: "fst ` set (group_by_doc (rs @ [r])) = r_doc_id ` set (rs @ [r])"
      unfolding step using keys by auto
    have 3: "group_ok (rs @ [r]) k g" if "map_of (group_by_doc (rs @ [r])) k = Some g" for k g
    proof (cases "map_of ?G k")
      case (Some g')
      with that have "g = g'" unfolding step by (simp add: map_add_def)
      moreover from Some notin have "r_doc_id r \<noteq> k"
        by (metis None option.distinct(1))
      ultimately show ?thesis using ok [OF Some] by (simp add: group_ok_other)
    next
      case N: None
      with that have "k = r_doc_id r" "g = ?g0"
        unfolding step by (auto simp: map_add_def split: if_splits)
      with notin keys show ?thesis using group_ok_new [of r rs] by simp
    qed
    from 1 2 3 show ?thesis by blast
  next
    case (Some g)
    let ?g' = "g\<lparr>g_chunk_count := g_chunk_count g + 1,
              g_top_chunks := g_top_chunks g @ [r],
              g_max_similarity := (if r_similarity r > g_max_similarity g
                                   then r_similarity r else g_max_similarity g)\<rparr>"
    from Some have step: "group_by_doc (rs @ [r]) = AList.update (r_doc_id r) ?g' ?G"
      by (simp add: group_by_doc_snoc group_step_def)
    from Some have isin: "r_doc_id r \<in> fst ` set ?G"
      by (metis map_of_eq_None_iff option.distinct(1))
    have 1: "distinct (map fst (group_by_doc (rs @ [r])))"
      unfolding step using d by (rule distinct_update)
    have 2: "fst ` set (group_by_doc (rs @ [r])) = r_doc_id ` set (rs @ [r])"
      unfolding step dom_update using keys isin by auto
    have 3: "group_ok (rs @ [r]) k h" if "map_of (group_by_doc (rs @ [r])) k = Some h" for k h
    proof (cases "k = r_doc_id r")
      case True
      with that have "h = ?g'" unfolding step by (simp add: update_conv')
      with True group_ok_grow [OF ok [OF Some]] show ?thesis by simp
    next
      case False
      with that have "map_of ?G k = Some h" unfolding step by (simp add: update_conv')
      from ok [OF this] False show ?thesis by (simp add: group_ok_other)
    qed
    from 1 2 3 show ?thesis by blast
  qed
qed

lemma ranked_groups_set:
  "set (ranked_groups rs) = snd ` set (group_by_doc rs)"
  by (simp add: ranked_groups_def)

lemma ranked_groups_ok:
  assumes "g \<in> set (ranked_groups rs)"
  shows "group_ok rs (g_doc_id g) g"
proof -
  from assms obtain k where kg: "(k, g) \<in> set (group_by_doc rs)"
    by (auto simp: ranked_groups_set)
  with group_by_doc_inv [of rs] have "map_of (group_by_doc rs) k = Some g" by simp
  with group_by_doc_inv [of rs] have ok: "group_ok rs k g" by blast
  then have "g_doc_id g = k" by (simp add: group_ok_def)
  with ok show ?thesis by simp
qed

lemma group_keys: "map g_doc_id (map snd (group_by_doc rs)) = map fst (group_by_doc rs)"
proof -
  have "g_doc_id (snd p) = fst p" if "p \<in> set (group_by_doc rs)" for p
  proof -
    obtain k g where p: "p = (k, g)" by (cases p)
    with that group_by_doc_inv [of rs] have "map_of (group_by_doc rs) k = Some g" by simp
    with group_by_doc_inv [of rs] have "group_ok rs k g" by blast
    then show ?thesis using p by (simp add: group_ok_def)
  qed
  then show ?thesis by simp
qed

lemma ranked_groups_distinct: "distinct (map g_doc_id (ranked_groups rs))"
proof -
  let ?xs = "map snd (group_by_doc rs)"
  let ?f = "\<lambda>g. - g_max_similarity g"
  have "distinct (map g_doc_id ?xs)"
    unfolding group_keys using group_by_doc_inv [of rs] by blast
  then have "distinct ?xs \<and> inj_on g_doc_id (set ?xs)"
    by (simp only: distinct_map)
  then have "distinct (sort_key ?f ?xs) \<and> inj_on g_doc_id (set (sort_key ?f ?xs))"
    by (simp only: distinct_sort set_sort)
  then show ?thesis
    unfolding ranked_groups_def by (simp only: distinct_map)
qed

lemma ranked_groups_keys: "g_doc_id ` set (ranked_groups rs) = r_doc_id ` set rs"
proof -
  have "g_doc_id ` set (ranked_groups rs) = set (map g_doc_id (map snd (group_by_doc rs)))"
    by (simp add: ranked_groups_def image_image)
  also have "\<dots> = fst ` set (group_by_doc rs)" unfolding group_keys by simp
  also have "\<dots> = r_doc_id ` set rs" using group_by_doc_inv [of rs] by blast
  finally show ?thesis .
qed

lemma ranked_groups_sorted:
  "sorted_wrt (\<lambda>a b. g_max_similarity a \<ge> g_max_similarity b) (ranked_groups rs)"
proof -
  have "sorted (map (\<lambda>g. - g_max_similarity g) (ranked_groups rs))"
    unfolding ranked_groups_def by (rule sorted_sort_key)
  then show ?thesis by (simp add: sorted_map)
qed

lemma raw_hits_length:
  "length (raw_hits E query n None s) = min (nat n) (coll_count (collection s))"
  by (simp add: raw_hits_def nearest_def where_filter_def where_match_def coll_count_def min.commute)

lemma ranked_groups_Nil: "ranked_groups [] = []"
  by (simp add: ranked_groups_def group_by_doc_def)

lemma ex_records4:
  "records (collection ex_state4) =
     [ex_entry ''d1'' ''north'', ex_entry ''d2'' ''east'', (ex_entry ''d1'' ''south'')\<lparr>e_id := ''d1_1''\<rparr>]"
  by (simp add: ex_state4_def records_index_of add_record_def ex_entry_def)

lemma ex_hits4:
  "raw_hits ex_env ''north'' 4 None ex_state4 =
     [to_hit sq_l2 [1, 0] (ex_entry ''d1'' ''north''), to_hit sq_l2 [1, 0] (ex_entry ''d2'' ''east''),
      to_hit sq_l2 [1, 0] ((ex_entry ''d1'' ''south'')\<lparr>e_id := ''d1_1''\<rparr>)]"
  unfolding raw_hits_def nearest_def ex_records4
  by (simp add: ex_env_def where_filter_def where_match_def ex_encode_def to_hit_def sq_l2_def ex_entry_def)

lemma ex_count4: "coll_count (collection ex_state4) = 3"
  by (simp add: coll_count_def ex_records4)

lemma ex_search4: "search_documents ex_env ''north'' 4 None ex_state4 = Inr ex_out4"
  unfolding search_documents_positive [of 4, simplified] ex_hits4 ex_count4
  by (simp add: to_hit_def ex_entry_def sq_l2_def ex_encode_def ex_out4_def ex_hit_def)

lemma ex_ranked4:
  "ranked_groups (so_results ex_out4) =
    [\<lparr>g_doc_id = MStr ''d1'', g_title = MStr ''T'', g_max_similarity = 1, g_chunk_count = 2,
      g_top_chunks = [ex_hit ''d1_0'' ''d1'' ''north'' 1, ex_hit ''d1_1'' ''d1'' ''south'' (-3)]\<rparr>,
     \<lparr>g_doc_id = MStr ''d2'', g_title = MStr ''T'', g_max_similarity = -1, g_chunk_count = 1,
      g_top_chunks = [ex_hit ''d2_0'' ''d2'' ''east'' (-1)]\<rparr>]"
  by (simp add: ranked_groups_def group_by_doc_def group_step_def ex_out4_def ex_hit_def)

text \<open>
  C4, as the code has it. For \<open>top_k\<close> of at least 1, \<open>semantic_search_all\<close> asks the
  search for 2 * \<open>top_k\<close> chunks (and gets that many, or all the index holds when it
  holds fewer). It returns the first \<open>top_k\<close> of the ranked groups, so at most \<open>top_k\<close>
  groups, in descending order of \<open>max_similarity\<close>. The ranked groups partition the
  retrieved chunks by \<open>doc_id\<close>: there is exactly one group for each \<open>doc_id\<close> among the
  chunks, its nested list holds all retrieved chunks of that \<open>doc_id\<close> with their
  similarities, in retrieval order, its \<open>chunk_count\<close> is their number, and its
  \<open>max_similarity\<close> is the largest of their similarities.
\<close>

theorem semantic_search_all_grouped:
  assumes "1 \<le> top_k" and "search_documents E query (top_k * 2) None s = Inr results"
  shows "length (so_results results) = min (nat (2 * top_k)) (coll_count (collection s))
    \<and> semantic_search_all E query top_k s =
        Inr \<lparr>sa_success = True, sa_query = query,
             sa_documents = take (nat top_k) (ranked_groups (so_results results)),
             sa_total_docs_found =
               (if so_results results = [] then None
                else Some (length (take (nat top_k) (ranked_groups (so_results results)))))\<rparr>
    \<and> int (length (take (nat top_k) (ranked_groups (so_results results)))) \<le> top_k
    \<and> sorted_wrt (\<lambda>a b. g_max_similarity a \<ge> g_max_similarity b)
         (take (nat top_k) (ranked_groups (so_results results)))
    \<and> sorted_wrt (\<lambda>a b. g_max_similarity a \<ge> g_max_similarity b) (ranked_groups (so_results results))
    \<and> distinct (map g_doc_id (ranked_groups (so_results results)))
    \<and> g_doc_id ` set (ranked_groups (so_results results)) = r_doc_id ` set (so_results results)
    \<and> (\<forall>g \<in> set (ranked_groups (so_results results)).
          g_top_chunks g = filter (\<lambda>r. r_doc_id r = g_doc_id g) (so_results results)
        \<and> g_top_chunks g \<noteq> []
        \<and> g_chunk_count g = length (g_top_chunks g)
        \<and> g_max_similarity g = Max (r_similarity ` set (g_top_chunks g)))"
proof -
  let ?rs = "so_results results"
  from assms(2) have fr: "format_results (raw_hits E query (top_k * 2) None s) = Inr ?rs"
    by (rule search_documents_hits)
  from format_results_nth [OF fr] have "length ?rs = length (raw_hits E query (top_k * 2) None s)"
    by blast
  then have 1: "length ?rs = min (nat (2 * top_k)) (coll_count (collection s))"
    by (simp add: raw_hits_length mult.commute)
  from assms(1) have sl: "py_slice_to top_k xs = take (nat top_k) xs" for xs :: "doc_group list"
    by (simp add: py_slice_to_def)
  have 2: "semantic_search_all E query top_k s =
        Inr \<lparr>sa_success = True, sa_query = query,
             sa_documents = take (nat top_k) (ranked_groups ?rs),
             sa_total_docs_found =
               (if ?rs = [] then None else Some (length (take (nat top_k) (ranked_groups ?rs))))\<rparr>"
    using assms(2) by (simp add: semantic_search_all_def Let_def ranked_groups_Nil sl)
  have 3: "int (length (take (nat top_k) (ranked_groups ?rs))) \<le> top_k" using assms(1) by simp
  have 5: "sorted_wrt (\<lambda>a b. g_max_similarity a \<ge> g_max_similarity b) (ranked_groups ?rs)"
    by (rule ranked_groups_sorted)
  then have 4: "sorted_wrt (\<lambda>a b. g_max_similarity a \<ge> g_max_similarity b) (take (nat top_k) (ranked_groups ?rs))"
    by (rule sorted_wrt_take)
  have 8: "g_top_chunks g = filter (\<lambda>r. r_doc_id r = g_doc_id g) ?rs
        \<and> g_top_chunks g \<noteq> []
        \<and> g_chunk_count g = length (g_top_chunks g)
        \<and> g_max_similarity g = Max (r_similarity ` set (g_top_chunks g))"
    if "g \<in> set (ranked_groups ?rs)" for g
    using ranked_groups_ok [OF that] unfolding group_ok_def by blast
  from 1 2 3 4 5 8 ranked_groups_distinct [of ?rs] ranked_groups_keys [of ?rs]
  show ?thesis by blast
qed

theorem semantic_search_all_grouped_witness:
  "(1::int) \<le> 2
   \<and> search_documents ex_env ''north'' (2 * 2) None ex_state4 = Inr ex_out4
   \<and> length (so_results ex_out4) = 3
   \<and> semantic_search_all ex_env ''north'' 2 ex_state4 =
        Inr \<lparr>sa_success = True, sa_query = ''north'',
             sa_documents =
               [\<lparr>g_doc_id = MStr ''d1'', g_title = MStr ''T'', g_max_similarity = 1, g_chunk_count = 2,
                 g_top_chunks = [ex_hit ''d1_0'' ''d1'' ''north'' 1, ex_hit ''d1_1'' ''d1'' ''south'' (-3)]\<rparr>,
                \<lparr>g_doc_id = MStr ''d2'', g_title = MStr ''T'', g_max_similarity = -1, g_chunk_count = 1,
                 g_top_chunks = [ex_hit ''d2_0'' ''d2'' ''east'' (-1)]\<rparr>],
             sa_total_docs_found = Some 2\<rparr>"
proof -
  have k: "(1::int) \<le> 2" by simp
  have s4: "search_documents ex_env ''north'' (2 * 2) None ex_state4 = Inr ex_out4"
    using ex_search4 by simp
  have ne: "so_results ex_out4 \<noteq> []" and len: "length (so_results ex_out4) = 3"
    by (simp_all add: ex_out4_def)
  from semantic_search_all_grouped [OF k s4]
  have "semantic_search_all ex_env ''north'' 2 ex_state4 =
        Inr \<lparr>sa_success = True, sa_query = ''north'',
             sa_documents = take (nat 2) (ranked_groups (so_results ex_out4)),
             sa_total_docs_found =
               (if so_results ex_out4 = [] then None
                else Some (length (take (nat 2) (ranked_groups (so_results ex_out4)))))\<rparr>"
    by blast
  then show ?thesis using ne len s4 unfolding ex_ranked4 by simp
qed

text \<open>
  C4 as stated fails for \<open>top_k\<close> = 0: the search is asked for 0 results, the vector
  index raises a \<open>TypeError\<close>, and \<open>semantic_search_all\<close> returns no groups at all.
\<close>

theorem semantic_search_all_zero_raises:
  "semantic_search_all ex_env ''north'' 0 ex_state4
     = Inl (TypeError ''Number of requested results 0, cannot be negative, or zero.'')"
  by (simp add: semantic_search_all_def search_documents_def coll_query_def str_int_0)

subsection \<open>Lexical selection of the context\<close>

lemma ranks_before_iff:
  "ranks_before a b \<longleftrightarrow> neg_score a < neg_score b \<or> (neg_score a = neg_score b \<and> fst a < fst b)"
  by (cases a; cases b) (auto simp: ranks_before_def neg_score_def)

lemma ranked_imp_le: "ranks_before a b \<Longrightarrow> neg_score a \<le> neg_score b"
  by (auto simp: ranks_before_iff)

lemma insort_ranked:
  assumes "sorted_wrt ranks_before ys" and "\<forall>y \<in> set ys. fst x < fst y"
  shows "sorted_wrt ranks_before (insort_key neg_score x ys)"
  using assms
proof (induction ys)
  case Nil
  then show ?case by simp
next
  case (Cons y ys)
  show ?case
  proof (cases "neg_score x \<le> neg_score y")
    case True
    have "ranks_before x z" if "z \<in> set (y # ys)" for z
    proof -
      have "neg_score y \<le> neg_score z"
        using that Cons.prems(1) by (auto dest: ranked_imp_le)
      with True have "neg_score x \<le> neg_score z" by simp
      moreover from that Cons.prems(2) have "fst x < fst z" by auto
      ultimately show ?thesis by (auto simp: ranks_before_iff)
    qed
    with True Cons.prems(1) show ?thesis by simp
  next
    case False
    then have "ranks_before y x" by (simp add: ranks_before_iff)
    moreover from Cons have "sorted_wrt ranks_before (insort_key neg_score x ys)" by simp
    ultimately show ?thesis using False Cons.prems(1) by (auto simp: set_insort_key)
  qed
qed

lemma sort_ranked:
  assumes "sorted_wrt (\<lambda>a b. fst a < fst b) xs"
  shows "sorted_wrt ranks_before (sort_key neg_score xs)"
  using assms
proof (induction xs)
  case Nil
  then show ?case by simp
next
  case (Cons x xs)
  then have "sorted_wrt ranks_before (sort_key neg_score xs)" by simp
  moreover from Cons.prems have "\<forall>y \<in> set (sort_key neg_score xs). fst x < fst y" by simp
  ultimately show ?case by (simp add: insort_ranked)
qed

lemma chunk_scores_nth:
  "length (chunk_scores query chunks) = length chunks"
  "i < length chunks \<Longrightarrow>
     chunk_scores query chunks ! i = (i, lexical_overlap (py_split (py_lower query)) (chunks ! i), chunks ! i)"
  by (simp_all add: chunk_scores_def nth_enumerate_eq)

lemma chunk_scores_indices: "map fst (chunk_scores query chunks) = [0 ..< length chunks]"
  by (rule nth_equalityI) (simp_all add: chunk_scores_nth)

lemma chunk_scores_ascending: "sorted_wrt (\<lambda>a b. fst a < fst b) (chunk_scores query chunks)"
proof -
  have "sorted_wrt (<) (map fst (chunk_scores query chunks))"
    unfolding chunk_scores_indices by (simp add: sorted_wrt_upt) 
  then show ?thesis by (simp add: sorted_wrt_map)
qed

lemma chunk_scores_mem:
  "p \<in> set (chunk_scores query chunks) \<longleftrightarrow>
     (\<exists>i < length chunks. p = (i, lexical_overlap (py_split (py_lower query)) (chunks ! i), chunks ! i))"
  unfolding in_set_conv_nth by (auto simp: chunk_scores_nth)

lemma top_scored_alt:
  "top_scored query chunks = take 3 (sort_key neg_score (chunk_scores query chunks))"
  by (simp add: top_scored_def neg_score_def)


lemma ranks_before_conv:
  "ranks_before = (\<lambda>(i, s, c) (j, t, d). t < s \<or> (s = t \<and> i < j))"
  by (auto simp: ranks_before_def fun_eq_iff)

lemma top_scored_sorted: "sorted_wrt ranks_before (top_scored query chunks)"
  unfolding top_scored_alt
  by (rule sorted_wrt_take) (rule sort_ranked [OF chunk_scores_ascending])

lemma top_scored_subset: "set (top_scored query chunks) \<subseteq> set (chunk_scores query chunks)"
  unfolding top_scored_alt using set_take_subset [of 3 "sort_key neg_score (chunk_scores query chunks)"]
  by simp

lemma top_scored_beats_rest:
  assumes "a \<in> set (top_scored query chunks)"
    and "b \<in> set (chunk_scores query chunks)" and "b \<notin> set (top_scored query chunks)"
  shows "ranks_before a b"
proof -
  let ?xs = "sort_key neg_score (chunk_scores query chunks)"
  have "sorted_wrt ranks_before (take 3 ?xs @ drop 3 ?xs)"
    using sort_ranked [OF chunk_scores_ascending, of query chunks] by simp
  then have *: "\<forall>x \<in> set (take 3 ?xs). \<forall>y \<in> set (drop 3 ?xs). ranks_before x y"
    unfolding sorted_wrt_append by blast
  have "set ?xs = set (take 3 ?xs) \<union> set (drop 3 ?xs)"
    by (metis append_take_drop_id set_append)
  with assms(2,3) have "b \<in> set (drop 3 ?xs)" by (simp add: top_scored_alt)
  with * assms(1) show ?thesis by (simp add: top_scored_alt)
qed

lemma ex_top_scored:
  "top_scored ''Alpha BETA'' ex_chunks = [(0, 2, ''alpha beta''), (3, 2, ''beta alpha''), (2, 1, ''Alpha'')]"
  by (simp add: top_scored_def chunk_scores_def ex_chunks_def enumerate_eq_zip lexical_overlap_def
        py_split_def py_lower_def py_lower_char_def py_isspace_def upt_rec [of 0] upper_chars_def lower_chars_def)


lemma ex_chunk_document: "chunk_document ''Alpha beta'' 1500 = [''Alpha beta'']"
  by (simp add: chunk_document_def split_nl_def nl_def py_strip_def py_isspace_def)

lemma ex_top_scored1: "top_scored ''Alpha BETA'' [''Alpha beta''] = [(0, 2, ''Alpha beta'')]"
  by (simp add: top_scored_def chunk_scores_def enumerate_eq_zip lexical_overlap_def
        py_split_def py_lower_def py_lower_char_def py_isspace_def upt_rec [of 0] upper_chars_def lower_chars_def)

lemma ex_overlap4:
  "card (set (py_split (py_lower ''Alpha BETA'')) \<inter> set (py_split (py_lower (ex_chunks ! 4)))) = 1"
  by (simp add: ex_chunks_def py_split_def py_lower_def py_lower_char_def py_isspace_def
        upper_chars_def lower_chars_def)

text \<open>
  C9. With \<open>analysis_type\<close> = \<open>qa\<close> and a non-empty query, \<open>analyze_legal_document\<close>
  answers from the prompt whose context is the chunks of \<open>top_scored\<close>, joined in that
  order. For any list of chunks, \<open>top_scored\<close> holds three entries (all of them when the
  document has fewer than three chunks); each entry is a chunk of the document with its
  position and its score, the number of lower-cased words that the query and the chunk
  share; no embedding is involved. The entries are in descending order of score, equal
  scores in chunk order, and every chunk that is not selected has a lower score than each
  selected one, or the same score and a later position.
\<close>

theorem qa_selects_top3_by_lexical_overlap:
  "(query \<noteq> [] \<longrightarrow>
      analyze_legal_document generate other document_text ''qa'' (Some query) =
        Inl (case generate
                    (qa_prompt
                       (py_join ([nl, nl] @ ''---'' @ [nl, nl])
                          (map (\<lambda>(i, s, c). c) (top_scored query (chunk_document document_text 1500))))
                       query) of
               Inr response_text \<Rightarrow>
                 Qa_Ok response_text ''qa'' query
                   (length (top_scored query (chunk_document document_text 1500)))
             | Inl err \<Rightarrow> Qa_Error err))
   \<and> length (top_scored query chunks) = min 3 (length chunks)
   \<and> (\<forall>(i, s, c) \<in> set (top_scored query chunks).
         i < length chunks \<and> c = chunks ! i
         \<and> s = card (set (py_split (py_lower query)) \<inter> set (py_split (py_lower c))))
   \<and> sorted_wrt (\<lambda>(i, s, c) (j, t, d). t < s \<or> (s = t \<and> i < j)) (top_scored query chunks)
   \<and> (\<forall>(i, s, c) \<in> set (top_scored query chunks). \<forall>j < length chunks.
         j \<notin> fst ` set (top_scored query chunks) \<longrightarrow>
           card (set (py_split (py_lower query)) \<inter> set (py_split (py_lower (chunks ! j)))) < s
         \<or> (card (set (py_split (py_lower query)) \<inter> set (py_split (py_lower (chunks ! j)))) = s
             \<and> i < j))"
proof -
  have 1: "analyze_legal_document generate other document_text ''qa'' (Some query) =
        Inl (case generate
                    (qa_prompt
                       (py_join ([nl, nl] @ ''---'' @ [nl, nl])
                          (map (\<lambda>(i, s, c). c) (top_scored query (chunk_document document_text 1500))))
                       query) of
               Inr response_text \<Rightarrow>
                 Qa_Ok response_text ''qa'' query
                   (length (top_scored query (chunk_document document_text 1500)))
             | Inl err \<Rightarrow> Qa_Error err)" if "query \<noteq> []"
    using that
    by (simp add: analyze_legal_document_def answer_document_question_def qa_context_def
          relevant_chunks_def split: sum.splits)
  have 2: "length (top_scored query chunks) = min 3 (length chunks)"
    by (simp add: top_scored_def chunk_scores_nth(1) min.commute)
  have 3: "i < length chunks \<and> c = chunks ! i
         \<and> s = card (set (py_split (py_lower query)) \<inter> set (py_split (py_lower c)))"
    if "(i, s, c) \<in> set (top_scored query chunks)" for i s c
  proof -
    from that top_scored_subset have "(i, s, c) \<in> set (chunk_scores query chunks)" by blast
    then show ?thesis by (auto simp: chunk_scores_mem lexical_overlap_def)
  qed
  have 4: "sorted_wrt (\<lambda>(i, s, c) (j, t, d). t < s \<or> (s = t \<and> i < j)) (top_scored query chunks)"
    using top_scored_sorted [of query chunks] unfolding ranks_before_conv .
  have 5: "card (set (py_split (py_lower query)) \<inter> set (py_split (py_lower (chunks ! j)))) < s
         \<or> (card (set (py_split (py_lower query)) \<inter> set (py_split (py_lower (chunks ! j)))) = s
             \<and> i < j)"
    if a: "(i, s, c) \<in> set (top_scored query chunks)" and j: "j < length chunks"
      and nj: "j \<notin> fst ` set (top_scored query chunks)" for i s c j
  proof -
    let ?b = "(j, lexical_overlap (py_split (py_lower query)) (chunks ! j), chunks ! j)"
    from j have "?b \<in> set (chunk_scores query chunks)" by (auto simp: chunk_scores_mem)
    moreover from nj have "?b \<notin> set (top_scored query chunks)" by force
    ultimately have "ranks_before (i, s, c) ?b" using a by (rule top_scored_beats_rest [rotated])
    then show ?thesis by (auto simp: ranks_before_def lexical_overlap_def)
  qed
  from 1 2 3 4 5 show ?thesis by blast
qed



theorem qa_selects_top3_by_lexical_overlap_witness:
  "''Alpha BETA'' \<noteq> []
   \<and> analyze_legal_document (\<lambda>prompt. Inr ''answer'') (\<lambda>text kind. ''other analysis'')
        ''Alpha beta'' ''qa'' (Some ''Alpha BETA'')
       = Inl (Qa_Ok ''answer'' ''qa'' ''Alpha BETA'' 1)
   \<and> top_scored ''Alpha BETA'' ex_chunks = [(0, 2, ''alpha beta''), (3, 2, ''beta alpha''), (2, 1, ''Alpha'')]
   \<and> (2, 1, ''Alpha'') \<in> set (top_scored ''Alpha BETA'' ex_chunks)
   \<and> 4 < length ex_chunks
   \<and> 4 \<notin> fst ` set (top_scored ''Alpha BETA'' ex_chunks)
   \<and> card (set (py_split (py_lower ''Alpha BETA'')) \<inter> set (py_split (py_lower (ex_chunks ! 4)))) = 1
   \<and> (2::nat) < 4"
proof -
  note inst = qa_selects_top3_by_lexical_overlap
    [of "''Alpha BETA''" "\<lambda>prompt. Inr ''answer''" "\<lambda>text kind. ''other analysis''" "''Alpha beta''" ex_chunks]
  have q: "''Alpha BETA'' \<noteq> []" by simp
  from inst q have "analyze_legal_document (\<lambda>prompt. Inr ''answer'') (\<lambda>text kind. ''other analysis'')
        ''Alpha beta'' ''qa'' (Some ''Alpha BETA'')
       = Inl (Qa_Ok ''answer'' ''qa'' ''Alpha BETA'' (length (top_scored ''Alpha BETA'' (chunk_document ''Alpha beta'' 1500))))"
    by simp
  then have a: "analyze_legal_document (\<lambda>prompt. Inr ''answer'') (\<lambda>text kind. ''other analysis'')
        ''Alpha beta'' ''qa'' (Some ''Alpha BETA'')
       = Inl (Qa_Ok ''answer'' ''qa'' ''Alpha BETA'' 1)"
    unfolding ex_chunk_document ex_top_scored1 by simp
  have m: "(2, 1, ''Alpha'') \<in> set (top_scored ''Alpha BETA'' ex_chunks)"
    and n: "4 \<notin> fst ` set (top_scored ''Alpha BETA'' ex_chunks)"
    unfolding ex_top_scored by simp_all
  have l: "4 < length ex_chunks" by (simp add: ex_chunks_def)
  from inst have "\<forall>(i, s, c) \<in> set (top_scored ''Alpha BETA'' ex_chunks). \<forall>j < length ex_chunks.
         j \<notin> fst ` set (top_scored ''Alpha BETA'' ex_chunks) \<longrightarrow>
           card (set (py_split (py_lower ''Alpha BETA'')) \<inter> set (py_split (py_lower (ex_chunks ! j)))) < s
         \<or> (card (set (py_split (py_lower ''Alpha BETA'')) \<inter> set (py_split (py_lower (ex_chunks ! j)))) = s
             \<and> i < j)"
    by blast
  with m l n have "card (set (py_split (py_lower ''Alpha BETA'')) \<inter> set (py_split (py_lower (ex_chunks ! 4)))) < 1
         \<or> (card (set (py_split (py_lower ''Alpha BETA'')) \<inter> set (py_split (py_lower (ex_chunks ! 4)))) = 1
             \<and> (2::nat) < 4)"
    by blast
  with q a m l n ex_top_scored ex_overlap4 show ?thesis by simp
qed

subsection \<open>Chunk round trip\<close>



lemma py_split_Nil [simp]: "py_split [] = []"
  by (simp add: py_split_def)













lemma py_isspace_blank [simp]: "py_isspace CHR '' ''"
  by (simp add: py_isspace_def)





















end
